theory Spec2Isabelle
  imports Main "HOL-Library.Sublist" "HOL-Library.List_Lexorder" "HOL-Library.Char_ord"
begin

section \<open>Strings and errors\<close>

text \<open>
  A Python \<open>str\<close> is modelled as a \<open>string\<close> whose characters are read as code points
  below 256. On that range \<open>str.lower\<close> moves exactly the letters \<open>A\<close>..\<open>Z\<close> and
  \<open>0xC0\<close>..\<open>0xDE\<close> (without \<open>0xD7\<close>) up by 32; in both ranges bit 5 is clear, so adding 32
  is setting bit 5.
\<close>

definition isupper :: "char \<Rightarrow> bool" where
  "isupper c = (let n = (of_char c :: nat) in
     (65 \<le> n \<and> n \<le> 90) \<or> (192 \<le> n \<and> n \<le> 222 \<and> n \<noteq> 215))"

definition lower_chr :: "char \<Rightarrow> char" where
  "lower_chr c = (if isupper c
     then (case c of Char b0 b1 b2 b3 b4 b5 b6 b7 \<Rightarrow> Char b0 b1 b2 b3 b4 True b6 b7)
     else c)"

definition lower :: "string \<Rightarrow> string" where
  "lower s = map lower_chr s"

text \<open>
  The exceptions the pipeline raises. A \<open>ValueError\<close> carries its message; where the
  source formats a value into the message, a string is put in as it is (without the quotes
  of \<open>repr\<close>) and the text of a value that is no string is not spelt out. A
  \<open>KeyError\<close> carries the missing key.
\<close>

datatype py_error =
    ValueError string
  | KeyError string
  | TypeError
  | FileNotFoundError

subsection \<open>Regular expressions of the source\<close>

text \<open>
  \<open>re.search(r'qualification|qualifying', s, re.IGNORECASE)\<close>: an alternation of
  literals, tried at every position of \<open>s\<close>, characters compared ignoring case.
\<close>

fun match_ci :: "string \<Rightarrow> string \<Rightarrow> bool" where
  "match_ci [] s = True"
| "match_ci (p # ps) [] = False"
| "match_ci (p # ps) (c # cs) = (lower_chr c = lower_chr p \<and> match_ci ps cs)"

fun re_search_ci :: "string list \<Rightarrow> string \<Rightarrow> bool" where
  "re_search_ci alts [] = list_ex (\<lambda>p. match_ci p []) alts"
| "re_search_ci alts (c # cs) =
     (list_ex (\<lambda>p. match_ci p (c # cs)) alts \<or> re_search_ci alts cs)"

section \<open>Round classifier (\<open>TennisDataProcessor.map_round_description\<close>)\<close>

definition round_map :: "(string \<times> string) list" where
  "round_map =
    [(''R128'', ''R128''),
     (''R64'', ''R64''),
     (''R32'', ''R32''),
     (''R16'', ''R16''),
     (''Quarterfinals'', ''QF''),
     (''Quarterfinal'', ''QF''),
     (''Semifinals'', ''SF''),
     (''Semifinal'', ''SF''),
     (''Final'', ''F''),
     (''1/32'', ''R32''),
     (''1/16'', ''R16''),
     (''1/8'', ''R8''),
     (''Qualification'', ''Q''),
     (''Qualification round 1'', ''Q''),
     (''Qualification round 2'', ''Q''),
     (''Qualification Final'', ''Q''),
     (''Qualification final'', ''Q''),
     (''Round of 128'', ''R128''),
     (''Round of 64'', ''R64''),
     (''Round of 32'', ''R32''),
     (''Round of 16'', ''R16'')]"

definition map_round_description :: "string \<Rightarrow> py_error + string" where
  "map_round_description round_description =
     (if round_description = [] then Inr []
      else if re_search_ci [''qualification'', ''qualifying''] round_description then Inr ''Q''
      else (case map_of round_map round_description of
              None \<Rightarrow> Inl (ValueError (''Unknown round description: '' @ round_description))
            | Some code \<Rightarrow> Inr code))"

text \<open>
  The specification's wording of the qualifying test: the label, lower-cased, contains the
  word as a substring.
\<close>

definition contains_ci :: "string \<Rightarrow> string \<Rightarrow> bool" where
  "contains_ci word label = (\<exists>a b. lower label = a @ word @ b)"

section \<open>Bracket documents\<close>

text \<open>
  A bracket file is a JSON list of cup trees; \<open>process_cuptree_json\<close> turns it into a
  table with one row per cup tree. The records below follow the keys the flattener reads.
  A key of a JSON object is absent, \<open>null\<close>, or holds a value; \<open>dict.get\<close> reads the
  first two as \<open>None\<close>, subscripting an absent key raises \<open>KeyError\<close>. Field names carry
  the record's letter (\<open>t_id\<close> is the team's key \<open>id\<close>, \<open>b_result\<close> the block's
  \<open>result\<close>). The nine projected team keys, the block's \<open>participants\<close> list and the
  round's \<open>blocks\<close> list are taken as present and of the type shown.
\<close>

datatype 'a field = Absent | Null | Val 'a

fun dict_get :: "'a field \<Rightarrow> 'a option" where
  "dict_get Absent = None"
| "dict_get Null = None"
| "dict_get (Val v) = Some v"

text \<open>\<open>d[k] = v\<close> where \<open>v\<close> came from a \<open>get\<close>: the key is present afterwards.\<close>

fun dict_store :: "'a option \<Rightarrow> 'a field" where
  "dict_store None = Null"
| "dict_store (Some v) = Val v"

record team_row =
  t_name :: string
  t_slug :: string
  t_shortName :: string
  t_gender :: string
  t_nameCode :: string
  t_ranking :: "int option"
  t_disabled :: bool
  t_national :: bool
  t_id :: int

record team = team_row +
  t_winner :: "bool field"
  t_order :: "int field"
  t_teamSeed :: "string field"

record participant =
  p_team :: team
  p_winner :: "bool field"
  p_order :: "int field"
  p_teamSeed :: "string field"

record block =
  b_finished :: "bool field"
  b_result :: "string field"
  b_homeTeamScore :: "string field"
  b_awayTeamScore :: "string field"
  b_id :: "int field"
  b_events :: "int list field"
  b_seriesStartDateTimestamp :: "int field"
  b_participants :: "participant list"

record round =
  r_description :: "string field"
  r_blocks :: "block list"

text \<open>
  One row of the cup-tree table: \<open>tournament.name\<close>, \<open>tournament.uniqueTournament.name\<close>
  and the \<open>rounds\<close> cell, which is \<open>None\<close> when it is not a list.
\<close>

record cuptree =
  c_tournamentName :: string
  c_uniqueTournament :: string
  c_rounds :: "round list option"

text \<open>
  One entry of \<open>games_list\<close>, which becomes one row of the games table: the cells under
  the twelve columns the flattener returns (a key the copied block lacks gives a missing
  cell), and in \<open>g_keys\<close> which of the block's own six selected keys the copy holds,
  since these decide which columns the table built from the list has.
\<close>

record game =
  g_finished :: "bool option"
  g_result :: "string option"
  g_homeTeamScore :: "string option"
  g_awayTeamScore :: "string option"
  g_id :: "int option"
  g_events :: "int list option"
  g_seriesStartDate :: "int option"
  g_home_id :: int
  g_away_id :: "int option"
  g_round_description :: string
  g_tournamentName :: string
  g_uniqueTournament :: string
  g_keys :: "string list"

section \<open>Score validator (\<open>validate_score_format\<close>)\<close>

text \<open>
  \<open>re.compile(r'^[0-3]:[0-3]$').match(score)\<close>, guarded by the truth value of \<open>score\<close>.
  In Python's \<open>re\<close> the anchor \<open>$\<close> also matches just before a final newline.
\<close>

definition digit03 :: "char \<Rightarrow> bool" where
  "digit03 c = (c \<in> set ''0123'')"

fun validate_score_format :: "string option \<Rightarrow> bool" where
  "validate_score_format None = False"
| "validate_score_format (Some score) =
     (case score of
        [h, sep, a] \<Rightarrow> digit03 h \<and> sep = CHR '':'' \<and> digit03 a
      | [h, sep, a, nl] \<Rightarrow> digit03 h \<and> sep = CHR '':'' \<and> digit03 a \<and> nl = CHR 0x0A
      | _ \<Rightarrow> False)"

section \<open>Roster extraction (\<open>get_all_participants\<close>)\<close>

text \<open>\<open>DataFrame.drop_duplicates()\<close>: of equal rows the first is kept, in order.\<close>

fun drop_duplicates :: "'a list \<Rightarrow> 'a list" where
  "drop_duplicates [] = []"
| "drop_duplicates (x # xs) = x # drop_duplicates (filter (\<lambda>y. y \<noteq> x) xs)"

text \<open>
  The innermost loop body: \<open>team\<close> is the participant's own \<open>team\<close> dictionary, so the
  three assignments write into the input document; the same dictionary is appended to
  \<open>participants_list\<close>.
\<close>

definition set_team_keys :: "participant \<Rightarrow> participant" where
  "set_team_keys p =
     p\<lparr>p_team := (p_team p)
         \<lparr>t_winner := dict_store (dict_get (p_winner p)),
          t_order := dict_store (dict_get (p_order p)),
          t_teamSeed := dict_store (dict_get (p_teamSeed p))\<rparr>\<rparr>"

definition participants_of_block :: "block \<Rightarrow> block \<times> team list" where
  "participants_of_block b =
     (let ps = map set_team_keys (b_participants b)
      in (b\<lparr>b_participants := ps\<rparr>, map p_team ps))"

definition participants_of_round :: "round \<Rightarrow> round \<times> team list" where
  "participants_of_round r =
     (let bts = map participants_of_block (r_blocks r)
      in (r\<lparr>r_blocks := map fst bts\<rparr>, concat (map snd bts)))"

text \<open>
  The outer loop iterates the \<open>rounds\<close> cell of each row; a cell that is not a list
  cannot be iterated, and the cup trees before it have been written to by then.
\<close>

fun participants_of_cuptrees :: "cuptree list \<Rightarrow> cuptree list \<times> (py_error + team list)" where
  "participants_of_cuptrees [] = ([], Inr [])"
| "participants_of_cuptrees (c # cs) =
     (case c_rounds c of
        None \<Rightarrow> (c # cs, Inl TypeError)
      | Some rounds \<Rightarrow>
          (let rts = map participants_of_round rounds;
               c' = c\<lparr>c_rounds := Some (map fst rts)\<rparr>
           in case participants_of_cuptrees cs of
                (cs', Inl e) \<Rightarrow> (c' # cs', Inl e)
              | (cs', Inr ts) \<Rightarrow> (c' # cs', Inr (concat (map snd rts) @ ts))))"

text \<open>
  The result pairs the cup trees as the call leaves them with the roster. Selecting the
  nine columns from a table built from no rows raises \<open>KeyError\<close>.
\<close>

definition get_all_participants ::
  "cuptree list \<Rightarrow> cuptree list \<times> (py_error + team_row list)" where
  "get_all_participants cuptrees =
     (case participants_of_cuptrees cuptrees of
        (cuptrees', Inl e) \<Rightarrow> (cuptrees', Inl e)
      | (cuptrees', Inr participants_list) \<Rightarrow>
          if participants_list = [] then (cuptrees', Inl (KeyError ''name''))
          else (cuptrees', Inr (drop_duplicates (map team_row.truncate participants_list))))"

section \<open>Match extraction (\<open>extract_games_from_cuptree\<close>)\<close>

definition terminal_results :: "string list" where
  "terminal_results = [''retired'', ''walkover'', ''0:0'']"

definition sentinel_results :: "string list" where
  "sentinel_results = [''home won'', ''away won'', ''on-going'']"

text \<open>\<open>block.get('result') and block.get('result').lower() in [...]\<close>\<close>

fun is_terminal :: "string option \<Rightarrow> bool" where
  "is_terminal None = False"
| "is_terminal (Some r) = (r \<noteq> [] \<and> lower r \<in> set terminal_results)"

text \<open>\<open>block.get('result') in ['home won', 'away won', 'on-going']\<close>\<close>

fun is_sentinel :: "string option \<Rightarrow> bool" where
  "is_sentinel None = False"
| "is_sentinel (Some r) = (r \<in> set sentinel_results)"

text \<open>
  \<open>block['result'] = block['homeTeamScore'] + ':' + block['awayTeamScore']\<close>, an
  assignment into the input block. A missing score key raises \<open>KeyError\<close>, a \<open>null\<close>
  score cannot be concatenated.
\<close>

definition rewrite_result :: "block \<Rightarrow> py_error + block" where
  "rewrite_result b =
     (case b_homeTeamScore b of
        Absent \<Rightarrow> Inl (KeyError ''homeTeamScore'')
      | Null \<Rightarrow> Inl TypeError
      | Val h \<Rightarrow>
          (case b_awayTeamScore b of
             Absent \<Rightarrow> Inl (KeyError ''awayTeamScore'')
           | Null \<Rightarrow> Inl TypeError
           | Val a \<Rightarrow> Inr (b\<lparr>b_result := Val (h @ '':'' @ a)\<rparr>)))"

text \<open>The text an f-string gives for the value of \<open>block.get('result')\<close>.\<close>

fun py_str :: "string option \<Rightarrow> string" where
  "py_str None = ''None''"
| "py_str (Some s) = s"

text \<open>
  \<open>pd.to_datetime(..., unit='s', errors='coerce')\<close> on one cell: seconds since the epoch,
  or no date when the cell is empty or outside the 64-bit nanosecond range.
\<close>

definition to_datetime :: "int option \<Rightarrow> int option" where
  "to_datetime ts =
     (case ts of
        None \<Rightarrow> None
      | Some s \<Rightarrow> if - 9223372036 \<le> s \<and> s \<le> 9223372036 then Some s else None)"

text \<open>
  The classifier is called with \<open>round_item.get('description', {})\<close>; an absent or
  \<open>null\<close> description is falsy, which takes the branch of the empty label.
\<close>

definition classify_round :: "string field \<Rightarrow> py_error + string" where
  "classify_round d =
     map_round_description (case dict_get d of None \<Rightarrow> [] | Some label \<Rightarrow> label)"

text \<open>
  The six selected columns that come from the block itself, and those of them that a
  block holds as keys (with a value or with \<open>null\<close>).
\<close>

fun has_key :: "'a field \<Rightarrow> bool" where
  "has_key Absent = False"
| "has_key Null = True"
| "has_key (Val v) = True"

definition block_columns :: "string list" where
  "block_columns = [''finished'', ''result'', ''homeTeamScore'', ''awayTeamScore'', ''id'', ''events'']"

definition present_keys :: "block \<Rightarrow> string list" where
  "present_keys b =
     map fst (filter snd
       [(''finished'', has_key (b_finished b)),
        (''result'', has_key (b_result b)),
        (''homeTeamScore'', has_key (b_homeTeamScore b)),
        (''awayTeamScore'', has_key (b_awayTeamScore b)),
        (''id'', has_key (b_id b)),
        (''events'', has_key (b_events b))])"

definition make_game :: "string \<Rightarrow> string \<Rightarrow> string \<Rightarrow> block \<Rightarrow> int \<Rightarrow> int option \<Rightarrow> game" where
  "make_game tournamentName uniqueTournament code b home_id away_id =
     \<lparr>g_finished = dict_get (b_finished b),
      g_result = dict_get (b_result b),
      g_homeTeamScore = dict_get (b_homeTeamScore b),
      g_awayTeamScore = dict_get (b_awayTeamScore b),
      g_id = dict_get (b_id b),
      g_events = dict_get (b_events b),
      g_seriesStartDate = to_datetime (dict_get (b_seriesStartDateTimestamp b)),
      g_home_id = home_id,
      g_away_id = away_id,
      g_round_description = code,
      g_tournamentName = tournamentName,
      g_uniqueTournament = uniqueTournament,
      g_keys = present_keys b\<rparr>"

text \<open>
  The body of the loop over blocks. The result is the block as the body leaves it, the
  lines logged, and the outcome: an exception, \<open>None\<close> for \<open>continue\<close>, or the row
  appended to \<open>games_list\<close>.
\<close>

definition extract_block ::
  "string \<Rightarrow> string \<Rightarrow> string field \<Rightarrow> block \<Rightarrow> block \<times> string list \<times> (py_error + game option)" where
  "extract_block tournamentName uniqueTournament round_description b =
     (if is_terminal (dict_get (b_result b)) then (b, [], Inr None)
      else
        case (if is_sentinel (dict_get (b_result b)) then rewrite_result b else Inr b) of
          Inl e \<Rightarrow> (b, [], Inl e)
        | Inr b' \<Rightarrow>
            (let logged =
                   (if validate_score_format (dict_get (b_result b')) then []
                    else [''Invalid score format: '' @ py_str (dict_get (b_result b'))])
             in case b_participants b' of
                  [] \<Rightarrow> (b', logged, Inr None)
                | p0 # rest \<Rightarrow>
                    (let home_id = t_id (p_team p0);
                         away_id = (case rest of [] \<Rightarrow> None | p1 # _ \<Rightarrow> Some (t_id (p_team p1)))
                     in case classify_round round_description of
                          Inl e \<Rightarrow> (b', logged, Inl e)
                        | Inr code \<Rightarrow>
                            (b', logged,
                             Inr (Some (make_game tournamentName uniqueTournament code b'
                                          home_id away_id))))))"

text \<open>
  The part of the loop body that follows the validation check, on the block \<open>b'\<close> as the
  rewrite left it: the participant test, the two ids, the round code and the row.
\<close>

definition emit_row :: "string \<Rightarrow> string \<Rightarrow> string field \<Rightarrow> block \<Rightarrow> py_error + game option" where
  "emit_row tournamentName uniqueTournament round_description b' =
     (case b_participants b' of
        [] \<Rightarrow> Inr None
      | p0 # rest \<Rightarrow>
          (case classify_round round_description of
             Inl e \<Rightarrow> Inl e
           | Inr code \<Rightarrow>
               Inr (Some (make_game tournamentName uniqueTournament code b'
                            (t_id (p_team p0))
                            (case rest of [] \<Rightarrow> None | p1 # _ \<Rightarrow> Some (t_id (p_team p1)))))))"

fun extract_blocks ::
  "string \<Rightarrow> string \<Rightarrow> string field \<Rightarrow> block list \<Rightarrow>
     block list \<times> string list \<times> (py_error + game list)" where
  "extract_blocks tn ut rd [] = ([], [], Inr [])"
| "extract_blocks tn ut rd (b # bs) =
     (case extract_block tn ut rd b of
        (b', lg, Inl e) \<Rightarrow> (b' # bs, lg, Inl e)
      | (b', lg, Inr row) \<Rightarrow>
          (case extract_blocks tn ut rd bs of
             (bs', lg', Inl e) \<Rightarrow> (b' # bs', lg @ lg', Inl e)
           | (bs', lg', Inr rows) \<Rightarrow>
               (b' # bs', lg @ lg', Inr ((case row of None \<Rightarrow> [] | Some g \<Rightarrow> [g]) @ rows))))"

fun extract_rounds ::
  "string \<Rightarrow> string \<Rightarrow> round list \<Rightarrow> round list \<times> string list \<times> (py_error + game list)" where
  "extract_rounds tn ut [] = ([], [], Inr [])"
| "extract_rounds tn ut (r # rs) =
     (case extract_blocks tn ut (r_description r) (r_blocks r) of
        (bs', lg, Inl e) \<Rightarrow> (r\<lparr>r_blocks := bs'\<rparr> # rs, lg, Inl e)
      | (bs', lg, Inr rows) \<Rightarrow>
          (case extract_rounds tn ut rs of
             (rs', lg', Inl e) \<Rightarrow> (r\<lparr>r_blocks := bs'\<rparr> # rs', lg @ lg', Inl e)
           | (rs', lg', Inr rows') \<Rightarrow>
               (r\<lparr>r_blocks := bs'\<rparr> # rs', lg @ lg', Inr (rows @ rows'))))"

text \<open>The loop over the rows of the cup-tree table; a row whose rounds are no list is passed over.\<close>

fun extract_cuptrees ::
  "cuptree list \<Rightarrow> cuptree list \<times> string list \<times> (py_error + game list)" where
  "extract_cuptrees [] = ([], [], Inr [])"
| "extract_cuptrees (c # cs) =
     (case c_rounds c of
        None \<Rightarrow>
          (case extract_cuptrees cs of (cs', lg', res) \<Rightarrow> (c # cs', lg', res))
      | Some rounds \<Rightarrow>
          (case extract_rounds (c_tournamentName c) (c_uniqueTournament c) rounds of
             (rs', lg, Inl e) \<Rightarrow> (c\<lparr>c_rounds := Some rs'\<rparr> # cs, lg, Inl e)
           | (rs', lg, Inr rows) \<Rightarrow>
               (case extract_cuptrees cs of
                  (cs', lg', Inl e) \<Rightarrow> (c\<lparr>c_rounds := Some rs'\<rparr> # cs', lg @ lg', Inl e)
                | (cs', lg', Inr rows') \<Rightarrow>
                    (c\<lparr>c_rounds := Some rs'\<rparr> # cs', lg @ lg', Inr (rows @ rows')))))"

text \<open>
  \<open>games_df[[...]]\<close> on the table built from \<open>games_list\<close>: a selected column exists
  when at least one entry holds its key. The five keys the loop adds and
  \<open>seriesStartDate\<close> always exist; of the block's own six, those that no entry holds are
  missing, and selecting a missing column raises \<open>KeyError\<close> (the first missing one is
  reported here).
\<close>

definition missing_columns :: "game list \<Rightarrow> string list" where
  "missing_columns games_list =
     filter (\<lambda>k. list_all (\<lambda>g. k \<notin> set (g_keys g)) games_list) block_columns"

text \<open>
  The games table is the list of its rows; the empty table stands for the empty
  \<open>DataFrame\<close> returned when no row was appended.
\<close>

definition extract_games_from_cuptree ::
  "cuptree list \<Rightarrow> cuptree list \<times> string list \<times> (py_error + game list)" where
  "extract_games_from_cuptree cuptrees =
     (case extract_cuptrees cuptrees of
        (cuptrees', lg, Inl e) \<Rightarrow> (cuptrees', lg, Inl e)
      | (cuptrees', lg, Inr games_list) \<Rightarrow>
          if games_list = [] then (cuptrees', lg, Inr [])
          else (case missing_columns games_list of
                  [] \<Rightarrow> (cuptrees', lg, Inr games_list)
                | k # _ \<Rightarrow> (cuptrees', lg, Inl (KeyError k))))"

section \<open>The flattening run (\<open>process_all_data\<close>)\<close>

text \<open>
  Each file is loaded, its roster extracted, then its games, on the same loaded
  document. The result carries the loaded documents as the run leaves them, the lines
  logged, and either the exception that ended the run or the roster and games tables.
\<close>

fun process_files ::
  "cuptree list list \<Rightarrow>
     cuptree list list \<times> string list \<times> (py_error + (team_row list list \<times> game list list))" where
  "process_files [] = ([], [], Inr ([], []))"
| "process_files (cuptree # files) =
     (case get_all_participants cuptree of
        (c1, Inl e) \<Rightarrow> (c1 # files, [], Inl e)
      | (c1, Inr participants_df) \<Rightarrow>
          (case extract_games_from_cuptree c1 of
             (c2, lg, Inl e) \<Rightarrow> (c2 # files, lg, Inl e)
           | (c2, lg, Inr games_df) \<Rightarrow>
               (case process_files files of
                  (files', lg', Inl e) \<Rightarrow> (c2 # files', lg @ lg', Inl e)
                | (files', lg', Inr (participants_list, games_list)) \<Rightarrow>
                    (c2 # files', lg @ lg',
                     Inr (participants_df # participants_list, games_df # games_list)))))"

definition process_all_data ::
  "nat option \<Rightarrow> cuptree list list \<Rightarrow>
     cuptree list list \<times> string list \<times> (py_error + (team_row list \<times> game list))" where
  "process_all_data max_cuptrees files =
     (if files = [] then ([], [], Inl FileNotFoundError)
      else
        let cuptree_files = (case max_cuptrees of None \<Rightarrow> files | Some n \<Rightarrow> take n files)
        in case process_files cuptree_files of
             (files', lg, Inl e) \<Rightarrow> (files', lg, Inl e)
           | (files', lg, Inr (participants_list, games_list)) \<Rightarrow>
               (files', lg,
                Inr (drop_duplicates (concat participants_list), concat games_list)))"

section \<open>Tables\<close>

text \<open>
  A \<open>DataFrame\<close> as the combiner uses it: a row index and named columns of equal length,
  in column order. A cell is a string, a number, a truth value or the missing value.
\<close>

datatype cell = CNaN | CStr string | CInt int | CBool bool

record frame =
  f_index :: "nat list"
  f_data :: "(string \<times> cell list) list"

definition columns :: "frame \<Rightarrow> string list" where
  "columns df = map fst (f_data df)"

text \<open>\<open>df[col] = values\<close>: an existing column is replaced where it stands, a new one is appended.\<close>

fun set_col :: "string \<Rightarrow> cell list \<Rightarrow> (string \<times> cell list) list \<Rightarrow> (string \<times> cell list) list" where
  "set_col k v [] = [(k, v)]"
| "set_col k v ((k', v') # rest) = (if k' = k then (k, v) # rest else (k', v') # set_col k v rest)"

text \<open>The row at one position, as pairs of column name and cell.\<close>

definition row_at :: "frame \<Rightarrow> nat \<Rightarrow> (string \<times> cell) list" where
  "row_at df i = map (\<lambda>(c, vs). (c, vs ! i)) (f_data df)"

subsection \<open>String operations of the combiner\<close>

text \<open>\<open>sub in s\<close>\<close>

fun is_substr :: "string \<Rightarrow> string \<Rightarrow> bool" where
  "is_substr sub [] = (sub = [])"
| "is_substr sub (c # cs) = (prefix sub (c # cs) \<or> is_substr sub cs)"

text \<open>
  \<open>s.replace(old, new)\<close> for a non-empty \<open>old\<close>: every occurrence, left to right, without
  overlap.
\<close>

function str_replace :: "string \<Rightarrow> string \<Rightarrow> string \<Rightarrow> string" where
  "str_replace old new [] = []"
| "str_replace old new (c # cs) =
     (if old \<noteq> [] \<and> prefix old (c # cs)
      then new @ str_replace old new (drop (length old) (c # cs))
      else c # str_replace old new cs)"
  by pat_completeness auto
termination
  by (relation "measure (\<lambda>(old, new, s). length s)") (auto simp: neq_Nil_conv)

text \<open>\<open>s.split(sep)\<close> for a one-character separator: never the empty list.\<close>

fun split_on :: "char \<Rightarrow> string \<Rightarrow> string list" where
  "split_on sep [] = [[]]"
| "split_on sep (c # cs) =
     (let parts = split_on sep cs
      in if c = sep then [] # parts else (c # hd parts) # tl parts)"

section \<open>Symmetrization (\<open>TennisDataCombiner.symmetrize_games\<close>)\<close>

text \<open>
  The inner function. With a colon in the string the split has at least two parts, so
  the last case of the pattern match is never taken.
\<close>

fun reverse_result :: "cell \<Rightarrow> cell" where
  "reverse_result (CStr result) =
     (if CHR '':'' \<in> set result
      then (case split_on CHR '':'' result of
              p0 # p1 # _ \<Rightarrow> CStr (p1 @ '':'' @ p0)
            | _ \<Rightarrow> CStr result)
      else CStr result)"
| "reverse_result c = c"

text \<open>
  One pass of the loop over \<open>df.columns\<close>: \<open>swapped\<close> receives columns of the unchanged
  \<open>df\<close>, first under the column's own name, then under its counterpart's.
\<close>

definition swap_pair ::
  "(string \<times> cell list) list \<Rightarrow> string \<Rightarrow> string \<Rightarrow> (string \<times> cell list) list \<Rightarrow>
     (string \<times> cell list) list" where
  "swap_pair df col other swapped =
     (case (map_of df other, map_of df col) of
        (Some o_vals, Some c_vals) \<Rightarrow> set_col other c_vals (set_col col o_vals swapped)
      | _ \<Rightarrow> swapped)"

definition swap_step ::
  "(string \<times> cell list) list \<Rightarrow> string \<Rightarrow> (string \<times> cell list) list \<Rightarrow>
     (string \<times> cell list) list" where
  "swap_step df col swapped =
     (if is_substr ''home'' col then
        (let away_col = str_replace ''home'' ''away'' col
         in if away_col \<in> set (map fst df) then swap_pair df col away_col swapped else swapped)
      else if is_substr ''away'' col then
        (let home_col = str_replace ''away'' ''home'' col
         in if home_col \<in> set (map fst df) then swap_pair df col home_col swapped else swapped)
      else swapped)"

text \<open>
  \<open>pd.concat([df, swapped], ignore_index=True)\<close>: the rows of \<open>swapped\<close> under those of
  \<open>df\<close>, column by column by name (a column \<open>swapped\<close> lacks is filled with the missing
  value), under a fresh index \<open>0, 1, ...\<close>.
\<close>

definition concat_frames :: "frame \<Rightarrow> frame \<Rightarrow> frame" where
  "concat_frames df swapped =
     \<lparr>f_index = [0 ..< length (f_index df) + length (f_index swapped)],
      f_data = map (\<lambda>(c, vs).
                  (c, vs @ (case map_of (f_data swapped) c of
                              Some ws \<Rightarrow> ws
                            | None \<Rightarrow> replicate (length (f_index swapped)) CNaN)))
                (f_data df)\<rparr>"

definition symmetrize_games :: "frame \<Rightarrow> py_error + frame" where
  "symmetrize_games df =
     (let swapped = fold (swap_step (f_data df)) (columns df) (f_data df)
      in case map_of (f_data df) ''result'' of
           None \<Rightarrow> Inl (KeyError ''result'')
         | Some result \<Rightarrow>
             Inr (concat_frames df
                    \<lparr>f_index = f_index df,
                     f_data = set_col ''result'' (map reverse_result result) swapped\<rparr>))"

text \<open>
  The enriched table that \<open>combine_data\<close> passes in: the twelve columns of the games
  table, then the three roster columns with suffix \<open>_home\<close>, then the three with suffix
  \<open>_away\<close>.
\<close>

definition enriched ::
  "nat list \<Rightarrow> cell list \<Rightarrow> cell list \<Rightarrow> cell list \<Rightarrow> cell list \<Rightarrow> cell list \<Rightarrow> cell list \<Rightarrow>
   cell list \<Rightarrow> cell list \<Rightarrow> cell list \<Rightarrow> cell list \<Rightarrow> cell list \<Rightarrow> cell list \<Rightarrow>
   cell list \<Rightarrow> cell list \<Rightarrow> cell list \<Rightarrow> cell list \<Rightarrow> cell list \<Rightarrow> cell list \<Rightarrow> frame" where
  "enriched idx finished result homeTeamScore awayTeamScore gid events seriesStartDate
     home_id away_id round_description tournamentName uniqueTournament
     id_home name_home birthdate_home id_away name_away birthdate_away =
     \<lparr>f_index = idx,
      f_data =
        [(''finished'', finished),
         (''result'', result),
         (''homeTeamScore'', homeTeamScore),
         (''awayTeamScore'', awayTeamScore),
         (''id'', gid),
         (''events'', events),
         (''seriesStartDate'', seriesStartDate),
         (''home_id'', home_id),
         (''away_id'', away_id),
         (''round_description'', round_description),
         (''tournamentName'', tournamentName),
         (''uniqueTournament'', uniqueTournament),
         (''id_home'', id_home),
         (''name_home'', name_home),
         (''birthdate_home'', birthdate_home),
         (''id_away'', id_away),
         (''name_away'', name_away),
         (''birthdate_away'', birthdate_away)]\<rparr>"

section \<open>Label (\<open>FeatureBuilder.define_label\<close>)\<close>

text \<open>
  \<open>int(s)\<close> on a string of code points below 256: surrounding white space is dropped,
  one sign is allowed, then decimal digits, single underscores allowed between digits.
  The white space \<open>int\<close> drops is tab, line feed, vertical tab, form feed, carriage
  return, space, \<open>0x85\<close> and \<open>0xA0\<close>; the separators \<open>0x1C\<close>..\<open>0x1F\<close>, which
  \<open>str.strip\<close> would drop, are not among them.
\<close>

definition py_space :: "char \<Rightarrow> bool" where
  "py_space c = ((of_char c :: nat) \<in> {9, 10, 11, 12, 13, 32, 133, 160})"

definition strip :: "string \<Rightarrow> string" where
  "strip s = rev (dropWhile py_space (rev (dropWhile py_space s)))"

definition is_digit :: "char \<Rightarrow> bool" where
  "is_digit c = (48 \<le> (of_char c :: nat) \<and> (of_char c :: nat) \<le> 57)"

definition digit_val :: "char \<Rightarrow> int" where
  "digit_val c = int (of_char c) - 48"

fun digits_from :: "int \<Rightarrow> string \<Rightarrow> int option" where
  "digits_from acc [] = None"
| "digits_from acc [c] = (if is_digit c then Some (acc * 10 + digit_val c) else None)"
| "digits_from acc (c # d # rest) =
     (if is_digit c then
        (if d = CHR ''_'' then digits_from (acc * 10 + digit_val c) rest
         else digits_from (acc * 10 + digit_val c) (d # rest))
      else None)"

definition py_int :: "string \<Rightarrow> int option" where
  "py_int s =
     (case strip s of
        [] \<Rightarrow> None
      | c # cs \<Rightarrow>
          if c = CHR ''-'' then map_option uminus (digits_from 0 cs)
          else if c = CHR ''+'' then digits_from 0 cs
          else digits_from 0 (c # cs))"

text \<open>
  The label of one result cell. \<open>int\<close> is applied to the first part, then to the second;
  either may raise.
\<close>

fun define_label :: "cell \<Rightarrow> py_error + string" where
  "define_label (CStr result) =
     (if CHR '':'' \<in> set result then
        (case split_on CHR '':'' result of
           p0 # p1 # _ \<Rightarrow>
             (case py_int p0 of
                None \<Rightarrow> Inl (ValueError (''invalid literal for int() with base 10: '' @ p0))
              | Some h \<Rightarrow>
                  (case py_int p1 of
                     None \<Rightarrow> Inl (ValueError (''invalid literal for int() with base 10: '' @ p1))
                   | Some a \<Rightarrow> Inr (if h > a then ''home'' else ''away'')))
         | _ \<Rightarrow> Inl (ValueError (''Invalid result format: '' @ result)))
      else Inl (ValueError (''Invalid result format: '' @ result)))"
| "define_label c = Inl (ValueError ''Invalid result format'')"

text \<open>The two integers \<open>define_label\<close> compares, when it gets that far.\<close>

fun parsed_scores :: "cell \<Rightarrow> (int \<times> int) option" where
  "parsed_scores (CStr result) =
     (if CHR '':'' \<in> set result then
        (case split_on CHR '':'' result of
           p0 # p1 # _ \<Rightarrow>
             (case (py_int p0, py_int p1) of
                (Some h, Some a) \<Rightarrow> Some (h, a)
              | _ \<Rightarrow> None)
         | _ \<Rightarrow> None)
      else None)"
| "parsed_scores c = None"

section \<open>Feature table (\<open>FeatureBuilder.build_features\<close>)\<close>

definition ordinal_mapping :: "(string \<times> int) list" where
  "ordinal_mapping =
     [(''Q1'', 1), (''Q2'', 2), (''Q'', 3), (''R128'', 4), (''R64'', 5), (''R32'', 6),
      (''R16'', 7), (''R8'', 8), (''QF'', 9), (''SF'', 10), (''F'', 11)]"

definition tournament_surfaces :: "(string \<times> string) list" where
  "tournament_surfaces = [(''Australian Open'', ''Hard''), (''Roland Garros'', ''Clay'')]"

text \<open>
  \<open>Series.map(d)\<close> with a dictionary \<open>d\<close>: each cell is looked up, and a cell that is no
  key of \<open>d\<close> becomes the missing value; nothing is raised.
\<close>

definition series_map :: "(string \<times> 'v) list \<Rightarrow> cell list \<Rightarrow> 'v option list" where
  "series_map d col = map (\<lambda>c. case c of CStr k \<Rightarrow> map_of d k | _ \<Rightarrow> None) col"

text \<open>\<open>Series.apply(define_label)\<close>: cell by cell, ended by the first exception.\<close>

fun apply_define_label :: "cell list \<Rightarrow> py_error + string list" where
  "apply_define_label [] = Inr []"
| "apply_define_label (c # cs) =
     (case define_label c of
        Inl e \<Rightarrow> Inl e
      | Inr l \<Rightarrow> (case apply_define_label cs of Inl e \<Rightarrow> Inl e | Inr ls \<Rightarrow> Inr (l # ls)))"

text \<open>
  \<open>sort_values(by=...)\<close>: rows in ascending order of the key column, missing keys last.
  Strings are compared with strings and numbers with numbers; a column that mixes them
  cannot be compared. Rows with equal keys keep their order here (the sort pandas uses by
  default does not promise that; nothing below depends on it).
\<close>

definition reorder :: "nat list \<Rightarrow> frame \<Rightarrow> frame" where
  "reorder order df =
     \<lparr>f_index = map (\<lambda>i. f_index df ! i) order,
      f_data = map (\<lambda>(c, vs). (c, map (\<lambda>i. vs ! i) order)) (f_data df)\<rparr>"

fun str_key :: "cell \<Rightarrow> string" where
  "str_key (CStr s) = s"
| "str_key c = []"

fun num_key :: "cell \<Rightarrow> int" where
  "num_key (CInt n) = n"
| "num_key (CBool b) = (if b then 1 else 0)"
| "num_key c = 0"

fun is_str :: "cell \<Rightarrow> bool" where
  "is_str (CStr s) = True"
| "is_str c = False"

fun is_num :: "cell \<Rightarrow> bool" where
  "is_num (CInt n) = True"
| "is_num (CBool b) = True"
| "is_num c = False"

definition sort_values :: "string \<Rightarrow> frame \<Rightarrow> py_error + frame" where
  "sort_values by df =
     (case map_of (f_data df) by of
        None \<Rightarrow> Inl (KeyError by)
      | Some col \<Rightarrow>
          (let present = filter (\<lambda>i. col ! i \<noteq> CNaN) [0 ..< length col];
               missing = filter (\<lambda>i. col ! i = CNaN) [0 ..< length col]
           in if list_all (\<lambda>i. is_str (col ! i)) present
              then Inr (reorder (sort_key (\<lambda>i. str_key (col ! i)) present @ missing) df)
              else if list_all (\<lambda>i. is_num (col ! i)) present
              then Inr (reorder (sort_key (\<lambda>i. num_key (col ! i)) present @ missing) df)
              else Inl TypeError))"

text \<open>
  \<open>pd.get_dummies\<close> for one encoded column: one truth-valued column per value that
  occurs, in sorted order; a missing value is \<open>False\<close> in all of them.
\<close>

definition get_dummies :: "string \<Rightarrow> string option list \<Rightarrow> (string \<times> cell list) list" where
  "get_dummies name col =
     map (\<lambda>v. (name @ ''_'' @ v, map (\<lambda>c. CBool (c = Some v)) col))
       (sort (remdups (concat (map (\<lambda>c. case c of None \<Rightarrow> [] | Some v \<Rightarrow> [v]) col))))"

fun ordinal_cell :: "int option \<Rightarrow> cell" where
  "ordinal_cell None = CNaN"
| "ordinal_cell (Some n) = CInt n"

text \<open>
  The feature table, built from the combined table. A \<open>KeyError\<close> inside one of the two
  \<open>try\<close> blocks is turned into a \<open>ValueError\<close>; such a \<open>KeyError\<close> comes from
  selecting the column, since \<open>Series.map\<close> raises none. The age and month columns
  (dates and floating point) are left out of the table modelled here.
\<close>

definition build_features :: "frame \<Rightarrow> py_error + frame" where
  "build_features combined_data =
     (case sort_values ''seriesStartDate'' combined_data of
        Inl e \<Rightarrow> Inl e
      | Inr data \<Rightarrow>
          (case map_of (f_data data) ''result'' of
             None \<Rightarrow> Inl (KeyError ''result'')
           | Some result \<Rightarrow>
               (case apply_define_label result of
                  Inl e \<Rightarrow> Inl e
                | Inr labels \<Rightarrow>
                    (case map_of (f_data data) ''id_home'' of
                       None \<Rightarrow> Inl (KeyError ''id_home'')
                     | Some id_home \<Rightarrow>
                         (case map_of (f_data data) ''id_away'' of
                            None \<Rightarrow> Inl (KeyError ''id_away'')
                          | Some id_away \<Rightarrow>
                              (case map_of (f_data data) ''uniqueTournament'' of
                                 None \<Rightarrow>
                                   Inl (ValueError ''Unknown tournament surface: uniqueTournament'')
                               | Some uniqueTournament \<Rightarrow>
                                   (case map_of (f_data data) ''round_description'' of
                                      None \<Rightarrow>
                                        Inl (ValueError
                                               ''Unknown round description: round_description'')
                                    | Some round_description \<Rightarrow>
                                        Inr \<lparr>f_index = f_index data,
                                             f_data =
                                               [(''result'', map CStr labels),
                                                (''id_home'', id_home),
                                                (''id_away'', id_away),
                                                (''round_ordinal'',
                                                 map ordinal_cell
                                                   (series_map ordinal_mapping round_description))]
                                               @ get_dummies ''surface''
                                                   (series_map tournament_surfaces
                                                      uniqueTournament)\<rparr>)))))))"

section \<open>Synthetic birthdates (\<open>TennisDataCombiner.participant_features\<close>)\<close>

text \<open>
  \<open>pd.Timestamp("Y-M-D").value // 10**9\<close>: the seconds from the epoch to midnight of a
  calendar day, through the day count of the proleptic Gregorian calendar.
\<close>

definition days_from_civil :: "int \<Rightarrow> int \<Rightarrow> int \<Rightarrow> int" where
  "days_from_civil y m d =
     (let y' = (if m \<le> 2 then y - 1 else y);
          era = y' div 400;
          yoe = y' - era * 400;
          doy = (153 * (if m > 2 then m - 3 else m + 9) + 2) div 5 + d - 1;
          doe = yoe * 365 + yoe div 4 - yoe div 100 + doy
      in era * 146097 + doe - 719468)"

definition timestamp_seconds :: "int \<Rightarrow> int \<Rightarrow> int \<Rightarrow> int" where
  "timestamp_seconds y m d = days_from_civil y m d * 86400"

text \<open>\<open>DatetimeIndex.normalize()\<close> on one timestamp in seconds: the time is set to midnight.\<close>

definition normalize :: "int \<Rightarrow> int" where
  "normalize t = t - t mod 86400"

text \<open>
  numpy's global generator, which belongs to numpy and not to this repository:
  \<open>np.random.seed\<close> sets the generator's state, \<open>np.random.randint(low, high, size)\<close>
  draws from the state and leaves an advanced state. Both are parameters here, over any
  type of states.
\<close>

record 'g np_random =
  np_seed :: "nat \<Rightarrow> 'g"
  np_randint :: "'g \<Rightarrow> int \<Rightarrow> int \<Rightarrow> nat \<Rightarrow> int list \<times> 'g"

text \<open>
  The roster with its birthdate column, as pairs of row and birth timestamp, and the
  state in which the call leaves the generator. The second argument is the state the
  generator is in when the call begins; the first statement after the copy overwrites it
  with the state of seed 42.
\<close>

definition participant_features ::
  "'g np_random \<Rightarrow> 'g \<Rightarrow> 'a list \<Rightarrow> ('a \<times> int) list \<times> 'g" where
  "participant_features np state part_df =
     (let seeded = np_seed np 42;
          num_participants = length part_df;
          (draws, state') =
            np_randint np seeded (timestamp_seconds 1970 1 1) (timestamp_seconds 2005 12 31)
              num_participants;
          random_birthdates = map normalize draws
      in (zip part_df random_birthdates, state'))"

text \<open>
  What numpy documents for \<open>randint\<close>: as many integers as asked for, from the half-open
  interval from \<open>low\<close> (inclusive) to \<open>high\<close> (exclusive), whatever the state.
\<close>

definition randint_contract :: "'g np_random \<Rightarrow> bool" where
  "randint_contract np =
     (\<forall>state low high n. low < high \<longrightarrow>
        length (fst (np_randint np state low high n)) = n \<and>
        (\<forall>x \<in> set (fst (np_randint np state low high n)). low \<le> x \<and> x < high))"

section \<open>What the run reads and what it writes\<close>

text \<open>
  Every reference to a team in a file, projected to the nine roster columns, in document
  order.
\<close>

definition team_rows_of :: "cuptree list \<Rightarrow> team_row list" where
  "team_rows_of cuptrees =
     concat (map (\<lambda>c. case c_rounds c of
                         None \<Rightarrow> []
                       | Some rounds \<Rightarrow>
                           concat (map (\<lambda>r. concat (map (\<lambda>b. map (\<lambda>p. team_row.truncate (p_team p))
                                                              (b_participants b))
                                                   (r_blocks r)))
                                       rounds))
                 cuptrees)"

text \<open>The files a run loads: all of them, or the first \<open>max_cuptrees\<close>.\<close>

definition loaded :: "nat option \<Rightarrow> cuptree list list \<Rightarrow> cuptree list list" where
  "loaded max_cuptrees files = (case max_cuptrees of None \<Rightarrow> files | Some n \<Rightarrow> take n files)"

text \<open>
  The writes a document may have received, level by level. A participant is as it was,
  or its team carries the three keys written from the participant. A block differs at
  most in \<open>result\<close> and \<open>participants\<close>: the result is as it was, or the block had a
  status result and two string scores and now holds their concatenation. A round differs
  at most in its blocks, a cup tree at most in its rounds.
\<close>

definition participant_frame :: "participant \<Rightarrow> participant \<Rightarrow> bool" where
  "participant_frame p p' =
     (p' = p \<or>
      p' = p\<lparr>p_team := (p_team p)
                \<lparr>t_winner := dict_store (dict_get (p_winner p)),
                 t_order := dict_store (dict_get (p_order p)),
                 t_teamSeed := dict_store (dict_get (p_teamSeed p))\<rparr>\<rparr>)"

definition block_frame :: "block \<Rightarrow> block \<Rightarrow> bool" where
  "block_frame b b' =
     (b' = b\<lparr>b_result := b_result b', b_participants := b_participants b'\<rparr> \<and>
      (b_result b' = b_result b \<or>
       (is_sentinel (dict_get (b_result b)) \<and>
        (case (b_homeTeamScore b, b_awayTeamScore b) of
           (Val h, Val a) \<Rightarrow> b_result b' = Val (h @ '':'' @ a)
         | _ \<Rightarrow> False))) \<and>
      list_all2 participant_frame (b_participants b) (b_participants b'))"

definition round_frame :: "round \<Rightarrow> round \<Rightarrow> bool" where
  "round_frame r r' =
     (r' = r\<lparr>r_blocks := r_blocks r'\<rparr> \<and> list_all2 block_frame (r_blocks r) (r_blocks r'))"

definition cuptree_frame :: "cuptree \<Rightarrow> cuptree \<Rightarrow> bool" where
  "cuptree_frame c c' =
     (c' = c\<lparr>c_rounds := c_rounds c'\<rparr> \<and>
      rel_option (list_all2 round_frame) (c_rounds c) (c_rounds c'))"

text \<open>
  A cup tree after a roster extraction that went through: every team of every round
  carries the three written keys.
\<close>

definition written :: "cuptree \<Rightarrow> cuptree" where
  "written c = c\<lparr>c_rounds := map_option (map (\<lambda>r. fst (participants_of_round r))) (c_rounds c)\<rparr>"

section \<open>Sample documents\<close>

text \<open>Small bracket documents on which the theorems below are exercised.\<close>

definition player :: "int \<Rightarrow> string \<Rightarrow> int option \<Rightarrow> team" where
  "player i nm rank =
     \<lparr>t_name = nm, t_slug = nm, t_shortName = nm, t_gender = ''M'', t_nameCode = nm,
      t_ranking = rank, t_disabled = False, t_national = False, t_id = i,
      t_winner = Absent, t_order = Absent, t_teamSeed = Absent\<rparr>"

definition entrant :: "team \<Rightarrow> bool \<Rightarrow> int \<Rightarrow> participant" where
  "entrant t won ord =
     \<lparr>p_team = t, p_winner = Val won, p_order = Val ord, p_teamSeed = Absent\<rparr>"

definition match_block ::
  "int \<Rightarrow> string field \<Rightarrow> string field \<Rightarrow> string field \<Rightarrow> participant list \<Rightarrow> block" where
  "match_block i res h a ps =
     \<lparr>b_finished = Val True, b_result = res, b_homeTeamScore = h, b_awayTeamScore = a,
      b_id = Val i, b_events = Val [], b_seriesStartDateTimestamp = Val 1674000000,
      b_participants = ps\<rparr>"

definition final_of :: "string \<Rightarrow> block list \<Rightarrow> cuptree" where
  "final_of tour bs =
     \<lparr>c_tournamentName = tour, c_uniqueTournament = tour,
      c_rounds = Some [\<lparr>r_description = Val ''Final'', r_blocks = bs\<rparr>]\<rparr>"

definition two_players :: "participant list" where
  "two_players = [entrant (player 1 ''A'' (Some 5)) True 1, entrant (player 2 ''B'' (Some 9)) False 2]"

text \<open>
  Two seasons in which team 1 appears with ranking 5 and with ranking 6, and a document
  with a status result.
\<close>

definition season_a :: "cuptree list" where
  "season_a = [final_of ''Australian Open'' [match_block 7 (Val ''2:1'') (Val ''2'') (Val ''1'') two_players]]"

definition season_b :: "cuptree list" where
  "season_b =
     [final_of ''Roland Garros''
        [match_block 8 (Val ''3:0'') (Val ''3'') (Val ''0'')
           [entrant (player 1 ''A'' (Some 6)) True 1, entrant (player 2 ''B'' (Some 9)) False 2]]]"

definition season_c :: "cuptree list" where
  "season_c = [final_of ''Australian Open'' [match_block 7 (Val ''home won'') (Val ''2'') (Val ''1'') two_players]]"

text \<open>An enriched table of one match, as read back from the combined file, with a given result.\<close>

definition one_match :: "cell \<Rightarrow> cell \<Rightarrow> cell \<Rightarrow> frame" where
  "one_match res h a =
     enriched [0] [CBool True] [res] [h] [a] [CInt 7] [CNaN] [CStr ''2023-01-18'']
       [CInt 1] [CInt 2] [CStr ''F''] [CStr ''Australian Open''] [CStr ''Australian Open'']
       [CInt 1] [CStr ''A''] [CStr ''1990-05-01''] [CInt 2] [CStr ''B''] [CStr ''1995-07-02'']"

text \<open>
  Combined tables of one and of two matches; \<open>Wimbledon\<close> is no key of the surface
  table.
\<close>

definition wimbledon_match :: frame where
  "wimbledon_match =
     enriched [0] [CBool True] [CStr ''3:1''] [CInt 3] [CInt 1] [CInt 9] [CNaN]
       [CStr ''2023-07-16''] [CInt 1] [CInt 2] [CStr ''F''] [CStr ''Wimbledon'']
       [CStr ''Wimbledon''] [CInt 1] [CStr ''A''] [CStr ''1990-05-01''] [CInt 2] [CStr ''B'']
       [CStr ''1995-07-02'']"

definition two_tournaments :: frame where
  "two_tournaments =
     enriched [0, 1] [CBool True, CBool True] [CStr ''3:1'', CStr ''0:3'']
       [CInt 3, CInt 0] [CInt 1, CInt 3] [CInt 9, CInt 7] [CNaN, CNaN]
       [CStr ''2023-07-16'', CStr ''2023-01-29''] [CInt 1, CInt 1] [CInt 2, CInt 2]
       [CStr ''F'', CStr ''SF''] [CStr ''Wimbledon'', CStr ''Australian Open'']
       [CStr ''Wimbledon'', CStr ''Australian Open'']
       [CInt 1, CInt 1] [CStr ''A'', CStr ''A''] [CStr ''1990-05-01'', CStr ''1990-05-01'']
       [CInt 2, CInt 2] [CStr ''B'', CStr ''B''] [CStr ''1995-07-02'', CStr ''1995-07-02'']"

text \<open>
  Two generators that keep the contract of \<open>randint\<close>, with a counter as state: one
  that spreads its draws over the interval, and one that always draws the largest value.
\<close>

definition spread_random :: "nat np_random" where
  "spread_random =
     \<lparr>np_seed = (\<lambda>s. s),
      np_randint = (\<lambda>state low high n.
        (map (\<lambda>i. low + (int (state + i) * 400000007) mod (high - low)) [0 ..< n],
         state + n))\<rparr>"

definition top_random :: "nat np_random" where
  "top_random =
     \<lparr>np_seed = (\<lambda>s. s),
      np_randint = (\<lambda>state low high n. (replicate n (high - 1), state + n))\<rparr>"

section \<open>Properties of the round classifier\<close>

lemma match_ci_prefix: "match_ci p s = prefix (map lower_chr p) (map lower_chr s)"
  by (induction p s rule: match_ci.induct) auto

lemma re_search_ci_iff:
  "re_search_ci alts s =
     (\<exists>p \<in> set alts. \<exists>a b. map lower_chr s = a @ map lower_chr p @ b)"
proof (induction s)
  case Nil
  show ?case
    by (auto simp: list_ex_iff match_ci_prefix)
next
  case (Cons c cs)
  have step: "(\<exists>a b. lower_chr c # map lower_chr cs = a @ q @ b) =
      (prefix q (lower_chr c # map lower_chr cs) \<or> (\<exists>a b. map lower_chr cs = a @ q @ b))"
    for q
  proof
    assume "\<exists>a b. lower_chr c # map lower_chr cs = a @ q @ b"
    then obtain a b where ab: "lower_chr c # map lower_chr cs = a @ q @ b" by blast
    show "prefix q (lower_chr c # map lower_chr cs) \<or> (\<exists>a b. map lower_chr cs = a @ q @ b)"
    proof (cases a)
      case Nil
      with ab show ?thesis by (auto simp: prefix_def)
    next
      case (Cons x a')
      with ab have "map lower_chr cs = a' @ q @ b" by simp
      then show ?thesis by blast
    qed
  next
    assume "prefix q (lower_chr c # map lower_chr cs) \<or> (\<exists>a b. map lower_chr cs = a @ q @ b)"
    then show "\<exists>a b. lower_chr c # map lower_chr cs = a @ q @ b"
    proof
      assume "prefix q (lower_chr c # map lower_chr cs)"
      then obtain b where "lower_chr c # map lower_chr cs = q @ b" by (auto simp: prefix_def)
      then have "lower_chr c # map lower_chr cs = [] @ q @ b" by simp
      then show ?thesis by blast
    next
      assume "\<exists>a b. map lower_chr cs = a @ q @ b"
      then obtain a b where "map lower_chr cs = a @ q @ b" by blast
      then have "lower_chr c # map lower_chr cs = (lower_chr c # a) @ q @ b" by simp
      then show ?thesis by blast
    qed
  qed
  show ?case
    unfolding re_search_ci.simps Cons.IH list_ex_iff match_ci_prefix list.map step
    by blast
qed

lemma lower_qualification: "map lower_chr ''qualification'' = ''qualification''"
  by (simp add: lower_chr_def isupper_def)

lemma lower_qualifying: "map lower_chr ''qualifying'' = ''qualifying''"
  by (simp add: lower_chr_def isupper_def)

lemma qualifying_search:
  "re_search_ci [''qualification'', ''qualifying''] l =
     (contains_ci ''qualification'' l \<or> contains_ci ''qualifying'' l)"
  unfolding re_search_ci_iff contains_ci_def lower_def
  using lower_qualification lower_qualifying by simp

lemma contains_ci_nonempty: "word \<noteq> [] \<Longrightarrow> contains_ci word l \<Longrightarrow> l \<noteq> []"
  by (auto simp: contains_ci_def lower_def)

text \<open>
  Claim C4. The round classifier returns the empty sentinel for the empty label; returns
  \<open>Q\<close> whenever the lower-cased label contains \<open>qualification\<close> or \<open>qualifying\<close>, whatever
  the table says; otherwise returns the table's code for a label that is a key of the
  fixed table (so \<open>Quarterfinal\<close> gives \<open>QF\<close> and \<open>1/8\<close> gives \<open>R8\<close>); and for every
  non-empty label that is neither qualifying nor a key of the table it raises the
  unknown-round error (the source's \<open>ValueError\<close>), never a default code.
\<close>

theorem map_round_description_classifies:
  "map_round_description [] = Inr [] \<and>
   (contains_ci ''qualification'' l \<or> contains_ci ''qualifying'' l \<longrightarrow>
      map_round_description l = Inr ''Q'') \<and>
   (l \<noteq> [] \<and> \<not> contains_ci ''qualification'' l \<and> \<not> contains_ci ''qualifying'' l \<longrightarrow>
      (\<forall>code. map_of round_map l = Some code \<longrightarrow> map_round_description l = Inr code) \<and>
      (l \<notin> fst ` set round_map \<longrightarrow>
         map_round_description l = Inl (ValueError (''Unknown round description: '' @ l)))) \<and>
   map_round_description ''Quarterfinal'' = Inr ''QF'' \<and>
   map_round_description ''1/8'' = Inr ''R8''"
proof -
  have empty: "map_round_description [] = Inr []"
    by (simp add: map_round_description_def)
  have qual: "map_round_description l = Inr ''Q''"
    if "contains_ci ''qualification'' l \<or> contains_ci ''qualifying'' l"
  proof -
    from that have "l \<noteq> []" using contains_ci_nonempty by fastforce
    with that show ?thesis
      by (simp add: map_round_description_def qualifying_search)
  qed
  have table: "map_round_description l = Inr code"
    if "l \<noteq> []" "\<not> contains_ci ''qualification'' l" "\<not> contains_ci ''qualifying'' l"
       "map_of round_map l = Some code" for code
    using that by (simp add: map_round_description_def qualifying_search)
  have unknown: "map_round_description l = Inl (ValueError (''Unknown round description: '' @ l))"
    if "l \<noteq> []" "\<not> contains_ci ''qualification'' l" "\<not> contains_ci ''qualifying'' l"
       "l \<notin> fst ` set round_map"
  proof -
    from that(4) have "map_of round_map l = None" by (simp add: map_of_eq_None_iff)
    with that show ?thesis
      by (simp add: map_round_description_def qualifying_search)
  qed
  have qf: "map_round_description ''Quarterfinal'' = Inr ''QF''"
    by (simp add: map_round_description_def round_map_def lower_chr_def isupper_def)
  have r8: "map_round_description ''1/8'' = Inr ''R8''"
    by (simp add: map_round_description_def round_map_def lower_chr_def isupper_def)
  from empty qual table unknown qf r8 show ?thesis by blast
qed

theorem map_round_description_classifies_witness:
  "map_round_description ''anything containing QUALIFYING'' = Inr ''Q'' \<and>
   map_round_description ''Round of 64'' = Inr ''R64'' \<and>
   map_round_description ''Unknown Stage Name'' =
     Inl (ValueError ''Unknown round description: Unknown Stage Name'')"
proof -
  have q: "contains_ci ''qualification'' ''anything containing QUALIFYING'' \<or>
           contains_ci ''qualifying'' ''anything containing QUALIFYING''"
    unfolding qualifying_search [symmetric] by (simp add: lower_chr_def isupper_def)
  have n64: "\<not> (contains_ci ''qualification'' ''Round of 64'' \<or>
                contains_ci ''qualifying'' ''Round of 64'')"
    unfolding qualifying_search [symmetric] by (simp add: lower_chr_def isupper_def)
  have nunk: "\<not> (contains_ci ''qualification'' ''Unknown Stage Name'' \<or>
                 contains_ci ''qualifying'' ''Unknown Stage Name'')"
    unfolding qualifying_search [symmetric] by (simp add: lower_chr_def isupper_def)
  have t64: "map_of round_map ''Round of 64'' = Some ''R64''"
    by (simp add: round_map_def)
  have tunk: "''Unknown Stage Name'' \<notin> fst ` set round_map"
    by (simp add: round_map_def)
  from map_round_description_classifies [of "''anything containing QUALIFYING''"] q
  have c1: "map_round_description ''anything containing QUALIFYING'' = Inr ''Q''"
    by blast
  from map_round_description_classifies [of "''Round of 64''"] n64 t64
  have c2: "map_round_description ''Round of 64'' = Inr ''R64''"
    by simp
  from map_round_description_classifies [of "''Unknown Stage Name''"] nunk tunk
  have c3: "map_round_description ''Unknown Stage Name'' =
     Inl (ValueError ''Unknown round description: Unknown Stage Name'')"
    by simp
  from c1 c2 c3 show ?thesis by simp
qed

section \<open>Properties of match extraction\<close>

lemma extract_blocks_rows_mem:
  "extract_blocks tn ut rd bs = (bs', lg, Inr rows) \<Longrightarrow> b \<in> set bs \<Longrightarrow>
   snd (snd (extract_block tn ut rd b)) = Inr (Some g) \<Longrightarrow> g \<in> set rows"
proof (induction bs arbitrary: bs' lg rows)
  case Nil
  then show ?case by simp
next
  case (Cons x xs)
  then show ?case
    by (auto split: prod.splits sum.splits option.splits)
qed

lemma extract_rounds_rows_mem:
  "extract_rounds tn ut rs = (rs', lg, Inr rows) \<Longrightarrow> r \<in> set rs \<Longrightarrow> b \<in> set (r_blocks r) \<Longrightarrow>
   snd (snd (extract_block tn ut (r_description r) b)) = Inr (Some g) \<Longrightarrow> g \<in> set rows"
proof (induction rs arbitrary: rs' lg rows)
  case Nil
  then show ?case by simp
next
  case (Cons x xs)
  then show ?case
    by (auto split: prod.splits sum.splits dest: extract_blocks_rows_mem)
qed

lemma extract_cuptrees_rows_mem:
  "extract_cuptrees cs = (cs', lg, Inr rows) \<Longrightarrow> c \<in> set cs \<Longrightarrow> c_rounds c = Some rs \<Longrightarrow>
   r \<in> set rs \<Longrightarrow> b \<in> set (r_blocks r) \<Longrightarrow>
   snd (snd (extract_block (c_tournamentName c) (c_uniqueTournament c) (r_description r) b)) = Inr (Some g) \<Longrightarrow>
   g \<in> set rows"
proof (induction cs arbitrary: cs' lg rows)
  case Nil
  then show ?case by simp
next
  case (Cons x xs)
  then show ?case
    by (auto split: prod.splits sum.splits option.splits dest: extract_rounds_rows_mem)
qed


lemma extract_block_reaching_validation:
  assumes "\<not> is_terminal (dict_get (b_result b))"
    and "(if is_sentinel (dict_get (b_result b)) then rewrite_result b else Inr b) = Inr b'"
  shows "extract_block tn ut rd b =
           (b',
            (if validate_score_format (dict_get (b_result b')) then []
             else [''Invalid score format: '' @ py_str (dict_get (b_result b'))]),
            emit_row tn ut rd b')"
  using assms unfolding extract_block_def emit_row_def
  by (simp add: Let_def split: list.splits sum.splits)

lemma emit_row_result: "emit_row tn ut rd b' = Inr (Some g) \<Longrightarrow> g_result g = dict_get (b_result b')"
  unfolding emit_row_def make_game_def
  by (auto split: list.splits sum.splits)

lemma emit_row_some:
  "b_participants b' \<noteq> [] \<Longrightarrow> classify_round rd = Inr code \<Longrightarrow> \<exists>g. emit_row tn ut rd b' = Inr (Some g)"
  unfolding emit_row_def by (auto split: list.splits)

lemma emit_row_ok_some:
  "b_participants b' \<noteq> [] \<Longrightarrow> emit_row tn ut rd b' = Inr row \<Longrightarrow> \<exists>g. row = Some g"
  unfolding emit_row_def by (auto split: list.splits sum.splits)

lemma rewrite_result_eq:
  "rewrite_result b = Inr b' \<Longrightarrow>
     \<exists>h a. b_homeTeamScore b = Val h \<and> b_awayTeamScore b = Val a \<and> b' = b\<lparr>b_result := Val (h @ '':'' @ a)\<rparr>"
  unfolding rewrite_result_def by (auto split: field.splits)

lemma sentinel_not_terminal: "is_sentinel x \<Longrightarrow> \<not> is_terminal x"
  by (cases x) (auto simp: sentinel_results_def terminal_results_def lower_def lower_chr_def isupper_def)

lemma extract_blocks_ok:
  "extract_blocks tn ut rd bs = (bs', lg, Inr rows) \<Longrightarrow> b \<in> set bs \<Longrightarrow>
   \<exists>row. snd (snd (extract_block tn ut rd b)) = Inr row"
proof (induction bs arbitrary: bs' lg rows)
  case Nil
  then show ?case by simp
next
  case (Cons x xs)
  then show ?case
    by (auto split: prod.splits sum.splits option.splits)
qed

lemma extract_rounds_ok:
  "extract_rounds tn ut rs = (rs', lg, Inr rows) \<Longrightarrow> r \<in> set rs \<Longrightarrow> b \<in> set (r_blocks r) \<Longrightarrow>
   \<exists>row. snd (snd (extract_block tn ut (r_description r) b)) = Inr row"
proof (induction rs arbitrary: rs' lg rows)
  case Nil
  then show ?case by simp
next
  case (Cons x xs)
  then show ?case
    by (auto split: prod.splits sum.splits dest: extract_blocks_ok)
qed

lemma extract_cuptrees_ok:
  "extract_cuptrees cs = (cs', lg, Inr rows) \<Longrightarrow> c \<in> set cs \<Longrightarrow> c_rounds c = Some rs \<Longrightarrow>
   r \<in> set rs \<Longrightarrow> b \<in> set (r_blocks r) \<Longrightarrow>
   \<exists>row. snd (snd (extract_block (c_tournamentName c) (c_uniqueTournament c) (r_description r) b)) = Inr row"
proof (induction cs arbitrary: cs' lg rows)
  case Nil
  then show ?case by simp
next
  case (Cons x xs)
  then show ?case
    by (auto split: prod.splits sum.splits option.splits dest: extract_rounds_ok)
qed

text \<open>
  The column selection passes the rows of the loop on unchanged, or raises; it does not
  touch the documents.
\<close>

lemma extract_games_run:
  "extract_games_from_cuptree cs = (cs', lg, Inr rows) \<Longrightarrow> extract_cuptrees cs = (cs', lg, Inr rows)"
  by (auto simp: extract_games_from_cuptree_def split: prod.splits sum.splits if_splits list.splits)

lemma extract_games_fst: "fst (extract_games_from_cuptree cs) = fst (extract_cuptrees cs)"
  by (auto simp: extract_games_from_cuptree_def split: prod.splits sum.splits if_splits list.splits)

text \<open>A block of a successful extraction that reaches the validation check with a
  participant has its row in the games table.\<close>

lemma reaching_block_in_games:
  assumes run: "extract_games_from_cuptree cs = (cs', lg, Inr rows)"
    and mem: "c \<in> set cs" "c_rounds c = Some rs" "r \<in> set rs" "b \<in> set (r_blocks r)"
    and reach: "\<not> is_terminal (dict_get (b_result b))"
      "(if is_sentinel (dict_get (b_result b)) then rewrite_result b else Inr b) = Inr b'"
    and parts: "b_participants b' \<noteq> []"
  shows "\<exists>g \<in> set rows. g_result g = dict_get (b_result b') \<and>
           emit_row (c_tournamentName c) (c_uniqueTournament c) (r_description r) b' = Inr (Some g)"
proof -
  let ?tn = "c_tournamentName c" and ?ut = "c_uniqueTournament c" and ?rd = "r_description r"
  from run have run': "extract_cuptrees cs = (cs', lg, Inr rows)"
    by (rule extract_games_run)
  have out: "snd (snd (extract_block ?tn ?ut ?rd b)) = emit_row ?tn ?ut ?rd b'"
    using extract_block_reaching_validation [OF reach] by simp
  from extract_cuptrees_ok [OF run' mem] out obtain row where row: "emit_row ?tn ?ut ?rd b' = Inr row"
    by auto
  with emit_row_ok_some [OF parts] obtain g where g: "emit_row ?tn ?ut ?rd b' = Inr (Some g)"
    by blast
  with out have "snd (snd (extract_block ?tn ?ut ?rd b)) = Inr (Some g)" by simp
  from extract_cuptrees_rows_mem [OF run' mem this] have "g \<in> set rows" .
  with g emit_row_result [OF g] show ?thesis by blast
qed

text \<open>Unfolding sets for running the model on the sample documents.\<close>

lemmas sample_defs = player_def entrant_def match_block_def final_of_def two_players_def
lemmas run_defs = extract_games_from_cuptree_def missing_columns_def block_columns_def
  present_keys_def extract_block_def rewrite_result_def
  classify_round_def map_round_description_def round_map_def make_game_def to_datetime_def
  sentinel_results_def terminal_results_def lower_def lower_chr_def isupper_def digit03_def

text \<open>
  Claim C5, amended. A block whose result is one of the status strings \<open>home won\<close>,
  \<open>away won\<close>, \<open>on-going\<close> and whose two scores are strings has its result overwritten
  by \<open>homeTeamScore:awayTeamScore\<close> before anything else happens to it: the validation
  check and the emitted row both see the rewritten value, every row the block emits
  carries it, and in a run of the extraction that ends without an exception such a block
  with a participant has a row with that result in the games table. A block with a
  status result one of whose scores is missing or \<open>null\<close> is not rewritten: the
  concatenation raises (\<open>KeyError\<close> for a missing key, \<open>TypeError\<close> for \<open>null\<close>), the
  block is left as it was and no row is emitted.
\<close>

theorem sentinel_result_rewritten:
  assumes res: "b_result b = Val s" and sent: "s \<in> {''home won'', ''away won'', ''on-going''}"
  shows "(b_homeTeamScore b = Val h \<and> b_awayTeamScore b = Val a \<longrightarrow>
            extract_block tn ut rd b =
              (b\<lparr>b_result := Val (h @ '':'' @ a)\<rparr>,
               (if validate_score_format (Some (h @ '':'' @ a)) then []
                else [''Invalid score format: '' @ h @ '':'' @ a]),
               emit_row tn ut rd (b\<lparr>b_result := Val (h @ '':'' @ a)\<rparr>)) \<and>
            (\<forall>g. emit_row tn ut rd (b\<lparr>b_result := Val (h @ '':'' @ a)\<rparr>) = Inr (Some g) \<longrightarrow>
                 g_result g = Some (h @ '':'' @ a)) \<and>
            (extract_games_from_cuptree cs = (cs', lg, Inr rows) \<and> c \<in> set cs \<and>
             c_rounds c = Some rs \<and> r \<in> set rs \<and> b \<in> set (r_blocks r) \<and>
             b_participants b \<noteq> [] \<longrightarrow>
               (\<exists>g \<in> set rows. g_result g = Some (h @ '':'' @ a)))) \<and>
         (b_homeTeamScore b = Absent \<longrightarrow>
            extract_block tn ut rd b = (b, [], Inl (KeyError ''homeTeamScore''))) \<and>
         (b_homeTeamScore b = Null \<longrightarrow>
            extract_block tn ut rd b = (b, [], Inl TypeError)) \<and>
         (b_homeTeamScore b = Val h \<and> b_awayTeamScore b = Absent \<longrightarrow>
            extract_block tn ut rd b = (b, [], Inl (KeyError ''awayTeamScore''))) \<and>
         (b_homeTeamScore b = Val h \<and> b_awayTeamScore b = Null \<longrightarrow>
            extract_block tn ut rd b = (b, [], Inl TypeError))"
proof -
  let ?b' = "b\<lparr>b_result := Val (h @ '':'' @ a)\<rparr>"
  from res sent have is_sent: "is_sentinel (dict_get (b_result b))"
    by (auto simp: sentinel_results_def)
  then have not_term: "\<not> is_terminal (dict_get (b_result b))"
    by (rule sentinel_not_terminal)
  have rewritten:
    "extract_block tn ut rd b =
       (?b', (if validate_score_format (Some (h @ '':'' @ a)) then []
              else [''Invalid score format: '' @ h @ '':'' @ a]), emit_row tn ut rd ?b') \<and>
     (\<forall>g. emit_row tn ut rd ?b' = Inr (Some g) \<longrightarrow> g_result g = Some (h @ '':'' @ a)) \<and>
     (extract_games_from_cuptree cs = (cs', lg, Inr rows) \<and> c \<in> set cs \<and>
      c_rounds c = Some rs \<and> r \<in> set rs \<and> b \<in> set (r_blocks r) \<and>
      b_participants b \<noteq> [] \<longrightarrow>
        (\<exists>g \<in> set rows. g_result g = Some (h @ '':'' @ a)))"
    if home: "b_homeTeamScore b = Val h" and away: "b_awayTeamScore b = Val a"
  proof -
    from home away have rw: "rewrite_result b = Inr ?b'"
      by (simp add: rewrite_result_def)
    with is_sent have reach:
      "(if is_sentinel (dict_get (b_result b)) then rewrite_result b else Inr b) = Inr ?b'"
      by simp
    have blk: "extract_block tn ut rd b =
           (?b', (if validate_score_format (Some (h @ '':'' @ a)) then []
             else [''Invalid score format: '' @ h @ '':'' @ a]), emit_row tn ut rd ?b')"
      using extract_block_reaching_validation [OF not_term reach, of tn ut rd] by simp
    have row: "g_result g = Some (h @ '':'' @ a)" if "emit_row tn ut rd ?b' = Inr (Some g)" for g
      using emit_row_result [OF that] by simp
    have tab: "\<exists>g \<in> set rows. g_result g = Some (h @ '':'' @ a)"
      if "extract_games_from_cuptree cs = (cs', lg, Inr rows)" "c \<in> set cs"
         "c_rounds c = Some rs" "r \<in> set rs" "b \<in> set (r_blocks r)" "b_participants b \<noteq> []"
    proof -
      from that(6) have "b_participants ?b' \<noteq> []" by simp
      from reaching_block_in_games [OF that(1-5) not_term reach this] show ?thesis by auto
    qed
    from blk row tab show ?thesis by blast
  qed
  have raised: "extract_block tn ut rd b = (b, [], Inl e)" if "rewrite_result b = Inl e" for e
    using that is_sent not_term by (simp add: extract_block_def)
  have e1: "extract_block tn ut rd b = (b, [], Inl (KeyError ''homeTeamScore''))"
    if "b_homeTeamScore b = Absent"
    using that by (intro raised) (simp add: rewrite_result_def)
  have e2: "extract_block tn ut rd b = (b, [], Inl TypeError)"
    if "b_homeTeamScore b = Null"
    using that by (intro raised) (simp add: rewrite_result_def)
  have e3: "extract_block tn ut rd b = (b, [], Inl (KeyError ''awayTeamScore''))"
    if "b_homeTeamScore b = Val h" "b_awayTeamScore b = Absent"
    using that by (intro raised) (simp add: rewrite_result_def)
  have e4: "extract_block tn ut rd b = (b, [], Inl TypeError)"
    if "b_homeTeamScore b = Val h" "b_awayTeamScore b = Null"
    using that by (intro raised) (simp add: rewrite_result_def)
  from rewritten e1 e2 e3 e4 show ?thesis by blast
qed

text \<open>
  Claim C5 as stated fails for a block with a status result and no scores: the
  concatenation raises, the block keeps its status result, and the extraction ends with
  the exception instead of a row.
\<close>

theorem sentinel_without_scores_counterexample:
  "extract_block ''Australian Open'' ''Australian Open'' (Val ''Final'')
      (match_block 7 (Val ''on-going'') Absent Absent two_players) =
     (match_block 7 (Val ''on-going'') Absent Absent two_players, [],
      Inl (KeyError ''homeTeamScore'')) \<and>
   extract_block ''Australian Open'' ''Australian Open'' (Val ''Final'')
      (match_block 7 (Val ''home won'') (Val ''2'') Null two_players) =
     (match_block 7 (Val ''home won'') (Val ''2'') Null two_players, [], Inl TypeError) \<and>
   extract_games_from_cuptree
      [final_of ''Australian Open'' [match_block 7 (Val ''on-going'') Absent Absent two_players]] =
     ([final_of ''Australian Open'' [match_block 7 (Val ''on-going'') Absent Absent two_players]],
      [], Inl (KeyError ''homeTeamScore''))"
  by (simp add: sample_defs run_defs)

theorem sentinel_result_rewritten_witness:
  "fst (extract_block ''Australian Open'' ''Australian Open'' (Val ''Final'')
          (match_block 7 (Val ''home won'') (Val ''2'') (Val ''1'') two_players)) =
     match_block 7 (Val ''2:1'') (Val ''2'') (Val ''1'') two_players \<and>
   (\<exists>cs' lg g. extract_games_from_cuptree
        [final_of ''Australian Open''
           [match_block 7 (Val ''home won'') (Val ''2'') (Val ''1'') two_players]] =
      (cs', lg, Inr [g]) \<and> g_result g = Some ''2:1'') \<and>
   extract_block ''Australian Open'' ''Australian Open'' (Val ''Final'')
      (match_block 7 (Val ''away won'') Null (Val ''1'') two_players) =
     (match_block 7 (Val ''away won'') Null (Val ''1'') two_players, [], Inl TypeError)"
proof -
  let ?b = "match_block 7 (Val ''home won'') (Val ''2'') (Val ''1'') two_players"
  let ?n = "match_block 7 (Val ''away won'') Null (Val ''1'') two_players"
  let ?c = "final_of ''Australian Open'' [?b]"
  let ?r = "\<lparr>r_description = Val ''Final'', r_blocks = [?b]\<rparr>"
  obtain cs' lg g where run: "extract_games_from_cuptree [?c] = (cs', lg, Inr [g])"
    by (simp add: sample_defs run_defs)
  have h: "b_result ?b = Val ''home won''" "''home won'' \<in> {''home won'', ''away won'', ''on-going''}"
    by (simp_all add: match_block_def)
  have scores: "b_homeTeamScore ?b = Val ''2'' \<and> b_awayTeamScore ?b = Val ''1''"
    by (simp add: match_block_def)
  have mem: "?c \<in> set [?c]" "c_rounds ?c = Some [?r]" "?r \<in> set [?r]" "?b \<in> set (r_blocks ?r)"
    "b_participants ?b \<noteq> []"
    by (simp_all add: sample_defs)
  note inst = sentinel_result_rewritten [OF h, of "''2''" "''1''" "''Australian Open''"
      "''Australian Open''" "Val ''Final''" "[?c]" cs' lg "[g]" ?c "[?r]" ?r]
  note rewr = inst [THEN conjunct1, THEN mp, OF scores]
  from rewr have "fst (extract_block ''Australian Open'' ''Australian Open'' (Val ''Final'') ?b) =
      ?b\<lparr>b_result := Val (''2'' @ '':'' @ ''1'')\<rparr>"
    by simp
  then have one: "fst (extract_block ''Australian Open'' ''Australian Open'' (Val ''Final'') ?b) =
      match_block 7 (Val ''2:1'') (Val ''2'') (Val ''1'') two_players"
    by (simp add: match_block_def)
  from rewr run mem have "\<exists>g' \<in> set [g]. g_result g' = Some (''2'' @ '':'' @ ''1'')"
    by blast
  then have two: "g_result g = Some ''2:1''" by simp
  have hn: "b_result ?n = Val ''away won''" "''away won'' \<in> {''home won'', ''away won'', ''on-going''}"
    by (simp_all add: match_block_def)
  have null: "b_homeTeamScore ?n = Null" by (simp add: match_block_def)
  from sentinel_result_rewritten [OF hn, of h a "''Australian Open''" "''Australian Open''"
      "Val ''Final''"] null
  have three: "extract_block ''Australian Open'' ''Australian Open'' (Val ''Final'') ?n =
      (?n, [], Inl TypeError)"
    by blast
  from run one two three show ?thesis by blast
qed

text \<open>
  Claim C6. A block that reaches the validation check (it was not skipped as a terminal
  outcome, and the rewrite, if any, went through) with a result that fails the
  score-format predicate gets one line logged and is otherwise processed as any other
  block: the outcome is \<open>emit_row\<close>, which does not consult the validator. With a
  participant and a classifiable round it is emitted, and in a run that ends without an
  exception its malformed result is in the games table.
\<close>

theorem invalid_score_logged_and_kept:
  assumes not_term: "\<not> is_terminal (dict_get (b_result b))"
    and reach: "(if is_sentinel (dict_get (b_result b)) then rewrite_result b else Inr b) = Inr b'"
    and bad: "\<not> validate_score_format (dict_get (b_result b'))"
  shows "extract_block tn ut rd b =
           (b', [''Invalid score format: '' @ py_str (dict_get (b_result b'))],
            emit_row tn ut rd b') \<and>
         (b_participants b \<noteq> [] \<and> classify_round rd = Inr code \<longrightarrow>
            (\<exists>g. emit_row tn ut rd b' = Inr (Some g) \<and> g_result g = dict_get (b_result b'))) \<and>
         (extract_games_from_cuptree cs = (cs', lg, Inr rows) \<and> c \<in> set cs \<and>
          c_rounds c = Some rs \<and> r \<in> set rs \<and> b \<in> set (r_blocks r) \<and> b_participants b \<noteq> [] \<longrightarrow>
            (\<exists>g \<in> set rows. g_result g = dict_get (b_result b') \<and>
                              \<not> validate_score_format (g_result g)))"
proof -
  have parts: "b_participants b' = b_participants b"
    using reach by (auto split: if_splits dest: rewrite_result_eq)
  have blk: "extract_block tn ut rd b =
           (b', [''Invalid score format: '' @ py_str (dict_get (b_result b'))],
            emit_row tn ut rd b')"
    using extract_block_reaching_validation [OF not_term reach, of tn ut rd] bad by simp
  have row: "\<exists>g. emit_row tn ut rd b' = Inr (Some g) \<and> g_result g = dict_get (b_result b')"
    if "b_participants b \<noteq> []" "classify_round rd = Inr code"
  proof -
    from that parts have "b_participants b' \<noteq> []" by simp
    from emit_row_some [OF this that(2)] obtain g where "emit_row tn ut rd b' = Inr (Some g)"
      by blast
    with emit_row_result [OF this] show ?thesis by blast
  qed
  have tab: "\<exists>g \<in> set rows. g_result g = dict_get (b_result b') \<and>
                              \<not> validate_score_format (g_result g)"
    if "extract_games_from_cuptree cs = (cs', lg, Inr rows)" "c \<in> set cs"
       "c_rounds c = Some rs" "r \<in> set rs" "b \<in> set (r_blocks r)" "b_participants b \<noteq> []"
  proof -
    from that(6) parts have "b_participants b' \<noteq> []" by simp
    from reaching_block_in_games [OF that(1-5) not_term reach this] bad show ?thesis by auto
  qed
  from blk row tab show ?thesis by blast
qed


theorem invalid_score_logged_and_kept_witness:
  "extract_block ''Roland Garros'' ''Roland Garros'' (Val ''Final'')
      (match_block 3 (Val ''4:1'') (Val ''4'') (Val ''1'') two_players) =
     (match_block 3 (Val ''4:1'') (Val ''4'') (Val ''1'') two_players,
      [''Invalid score format: 4:1''],
      emit_row ''Roland Garros'' ''Roland Garros'' (Val ''Final'')
        (match_block 3 (Val ''4:1'') (Val ''4'') (Val ''1'') two_players)) \<and>
   (\<exists>cs' lg g. extract_games_from_cuptree
        [final_of ''Roland Garros''
           [match_block 3 (Val ''4:1'') (Val ''4'') (Val ''1'') two_players]] =
      (cs', lg, Inr [g]) \<and> g_result g = Some ''4:1'' \<and> \<not> validate_score_format (g_result g))"
proof -
  let ?b = "match_block 3 (Val ''4:1'') (Val ''4'') (Val ''1'') two_players"
  let ?c = "final_of ''Roland Garros'' [?b]"
  let ?r = "\<lparr>r_description = Val ''Final'', r_blocks = [?b]\<rparr>"
  obtain cs' lg g where run: "extract_games_from_cuptree [?c] = (cs', lg, Inr [g])"
    by (simp add: sample_defs run_defs)
  have h: "\<not> is_terminal (dict_get (b_result ?b))"
    "(if is_sentinel (dict_get (b_result ?b)) then rewrite_result ?b else Inr ?b) = Inr ?b"
    "\<not> validate_score_format (dict_get (b_result ?b))"
    by (simp_all add: match_block_def run_defs)
  have mem: "?c \<in> set [?c]" "c_rounds ?c = Some [?r]" "?r \<in> set [?r]" "?b \<in> set (r_blocks ?r)"
    "b_participants ?b \<noteq> []"
    by (simp_all add: sample_defs)
  have res: "dict_get (b_result ?b) = Some ''4:1''"
    by (simp add: match_block_def)
  note inst = invalid_score_logged_and_kept [OF h, of "''Roland Garros''" "''Roland Garros''"
      "Val ''Final''" "''F''" "[?c]" cs' lg "[g]" ?c "[?r]" ?r]
  from inst res have one: "extract_block ''Roland Garros'' ''Roland Garros'' (Val ''Final'') ?b =
     (?b, [''Invalid score format: 4:1''],
      emit_row ''Roland Garros'' ''Roland Garros'' (Val ''Final'') ?b)"
    by simp
  from inst run mem have "\<exists>g' \<in> set [g]. g_result g' = dict_get (b_result ?b) \<and>
      \<not> validate_score_format (g_result g')"
    by blast
  with res have "g_result g = Some ''4:1'' \<and> \<not> validate_score_format (g_result g)" by auto
  with run one show ?thesis by blast
qed

lemma lower_in_sentinel_invalid:
  assumes "lower s \<in> set sentinel_results"
  shows "\<not> validate_score_format (Some s)"
proof -
  from assms have "length (lower s) = 8" by (auto simp: sentinel_results_def)
  then have "length s = 8" by (simp add: lower_def)
  then show ?thesis by (auto split: list.splits)
qed

lemma lower_in_sentinel_not_terminal:
  assumes "lower s \<in> set sentinel_results"
  shows "\<not> is_terminal (Some s)"
  using assms by (auto simp: sentinel_results_def terminal_results_def)

text \<open>
  Claim C10. The skip test lower-cases the result, so any casing of \<open>retired\<close>,
  \<open>walkover\<close> and \<open>0:0\<close> is skipped. The rewrite test compares exactly, so a result
  that lower-cases to \<open>home won\<close>, \<open>away won\<close> or \<open>on-going\<close> without being one of them
  is neither skipped nor rewritten: the block is left as it is, the result is logged as
  malformed, and the row that the block emits carries the result string unchanged, into
  the games table of a run that ends without an exception.
\<close>

theorem casing_of_skip_and_rewrite:
  "(b_result b = Val s \<and> lower s \<in> {''retired'', ''walkover'', ''0:0''} \<longrightarrow>
      extract_block tn ut rd b = (b, [], Inr None)) \<and>
   (b_result b = Val s \<and> lower s \<in> {''home won'', ''away won'', ''on-going''} \<and>
    s \<notin> {''home won'', ''away won'', ''on-going''} \<longrightarrow>
      extract_block tn ut rd b = (b, [''Invalid score format: '' @ s], emit_row tn ut rd b) \<and>
      (\<forall>g. emit_row tn ut rd b = Inr (Some g) \<longrightarrow> g_result g = Some s) \<and>
      (extract_games_from_cuptree cs = (cs', lg, Inr rows) \<and> c \<in> set cs \<and>
       c_rounds c = Some rs \<and> r \<in> set rs \<and> b \<in> set (r_blocks r) \<and> b_participants b \<noteq> [] \<longrightarrow>
         (\<exists>g \<in> set rows. g_result g = Some s)))"
proof -
  have skip: "extract_block tn ut rd b = (b, [], Inr None)"
    if "b_result b = Val s" "lower s \<in> {''retired'', ''walkover'', ''0:0''}"
  proof -
    from that(2) have "lower s \<noteq> []" by auto
    then have "s \<noteq> []" by (auto simp: lower_def)
    with that have "is_terminal (dict_get (b_result b))"
      by (auto simp: terminal_results_def)
    then show ?thesis by (simp add: extract_block_def)
  qed
  have keep: "extract_block tn ut rd b = (b, [''Invalid score format: '' @ s], emit_row tn ut rd b) \<and>
      (\<forall>g. emit_row tn ut rd b = Inr (Some g) \<longrightarrow> g_result g = Some s) \<and>
      (extract_games_from_cuptree cs = (cs', lg, Inr rows) \<and> c \<in> set cs \<and>
       c_rounds c = Some rs \<and> r \<in> set rs \<and> b \<in> set (r_blocks r) \<and> b_participants b \<noteq> [] \<longrightarrow>
         (\<exists>g \<in> set rows. g_result g = Some s))"
    if res: "b_result b = Val s" and low: "lower s \<in> {''home won'', ''away won'', ''on-going''}"
      and exact: "s \<notin> {''home won'', ''away won'', ''on-going''}"
  proof -
    from low have low': "lower s \<in> set sentinel_results" by (simp add: sentinel_results_def)
    from res lower_in_sentinel_not_terminal [OF low']
    have not_term: "\<not> is_terminal (dict_get (b_result b))" by simp
    from res exact have "\<not> is_sentinel (dict_get (b_result b))"
      by (simp add: sentinel_results_def)
    then have reach:
      "(if is_sentinel (dict_get (b_result b)) then rewrite_result b else Inr b) = Inr b"
      by simp
    from res lower_in_sentinel_invalid [OF low']
    have bad: "\<not> validate_score_format (dict_get (b_result b))" by simp
    have blk: "extract_block tn ut rd b = (b, [''Invalid score format: '' @ s], emit_row tn ut rd b)"
      using extract_block_reaching_validation [OF not_term reach, of tn ut rd] bad res by simp
    have row: "g_result g = Some s" if "emit_row tn ut rd b = Inr (Some g)" for g
      using emit_row_result [OF that] res by simp
    have tab: "\<exists>g \<in> set rows. g_result g = Some s"
      if "extract_games_from_cuptree cs = (cs', lg, Inr rows)" "c \<in> set cs"
        "c_rounds c = Some rs" "r \<in> set rs" "b \<in> set (r_blocks r)" "b_participants b \<noteq> []"
      using reaching_block_in_games [OF that(1-5) not_term reach that(6)] res by auto
    from blk row tab show ?thesis by blast
  qed
  from skip keep show ?thesis by blast
qed

theorem casing_of_skip_and_rewrite_witness:
  "extract_block ''Wimbledon'' ''Wimbledon'' (Val ''Final'')
      (match_block 4 (Val ''WALKOVER'') Absent Absent two_players) =
     (match_block 4 (Val ''WALKOVER'') Absent Absent two_players, [], Inr None) \<and>
   fst (extract_block ''Wimbledon'' ''Wimbledon'' (Val ''Final'')
      (match_block 5 (Val ''Home won'') (Val ''2'') (Val ''1'') two_players)) =
     match_block 5 (Val ''Home won'') (Val ''2'') (Val ''1'') two_players \<and>
   (\<exists>cs' lg g. extract_games_from_cuptree
        [final_of ''Wimbledon''
           [match_block 5 (Val ''Home won'') (Val ''2'') (Val ''1'') two_players]] =
      (cs', lg, Inr [g]) \<and> g_result g = Some ''Home won'')"
proof -
  let ?w = "match_block 4 (Val ''WALKOVER'') Absent Absent two_players"
  let ?b = "match_block 5 (Val ''Home won'') (Val ''2'') (Val ''1'') two_players"
  let ?c = "final_of ''Wimbledon'' [?b]"
  let ?r = "\<lparr>r_description = Val ''Final'', r_blocks = [?b]\<rparr>"
  have hw: "b_result ?w = Val ''WALKOVER''" "lower ''WALKOVER'' \<in> {''retired'', ''walkover'', ''0:0''}"
    by (simp_all add: match_block_def lower_def lower_chr_def isupper_def)
  from casing_of_skip_and_rewrite [of ?w "''WALKOVER''" "''Wimbledon''" "''Wimbledon''" "Val ''Final''"] hw
  have one: "extract_block ''Wimbledon'' ''Wimbledon'' (Val ''Final'') ?w = (?w, [], Inr None)"
    by blast
  obtain cs' lg g where run: "extract_games_from_cuptree [?c] = (cs', lg, Inr [g])"
    by (simp add: sample_defs run_defs)
  have hb: "b_result ?b = Val ''Home won''"
    "lower ''Home won'' \<in> {''home won'', ''away won'', ''on-going''}"
    "''Home won'' \<notin> {''home won'', ''away won'', ''on-going''}"
    by (simp_all add: match_block_def lower_def lower_chr_def isupper_def)
  have mem: "?c \<in> set [?c]" "c_rounds ?c = Some [?r]" "?r \<in> set [?r]" "?b \<in> set (r_blocks ?r)"
    "b_participants ?b \<noteq> []"
    by (simp_all add: sample_defs)
  note inst = casing_of_skip_and_rewrite [of ?b "''Home won''" "''Wimbledon''" "''Wimbledon''"
      "Val ''Final''" "[?c]" cs' lg "[g]" ?c "[?r]" ?r]
  have pre: "b_result ?b = Val ''Home won'' \<and>
      lower ''Home won'' \<in> {''home won'', ''away won'', ''on-going''} \<and>
      ''Home won'' \<notin> {''home won'', ''away won'', ''on-going''}"
    using hb by blast
  note kept = inst [THEN conjunct2, THEN mp, OF pre]
  from kept have two: "fst (extract_block ''Wimbledon'' ''Wimbledon'' (Val ''Final'') ?b) = ?b"
    by simp
  from kept run mem have "\<exists>g' \<in> set [g]. g_result g' = Some ''Home won''"
    by blast
  then have "g_result g = Some ''Home won''" by simp
  with run one two show ?thesis by blast
qed

section \<open>Properties of the roster\<close>

lemma set_drop_duplicates: "set (drop_duplicates xs) = set xs"
proof (induction xs rule: drop_duplicates.induct)
  case 1
  show ?case by simp
next
  case (2 x xs)
  then show ?case by auto
qed

lemma distinct_drop_duplicates: "distinct (drop_duplicates xs)"
proof (induction xs rule: drop_duplicates.induct)
  case 1
  show ?case by simp
next
  case (2 x xs)
  then show ?case by (simp add: set_drop_duplicates)
qed

lemma truncate_set_team_keys:
  "team_row.truncate (p_team (set_team_keys p)) = team_row.truncate (p_team p)"
  by (simp add: set_team_keys_def team_row.truncate_def)

lemma participants_of_block_rows:
  "map team_row.truncate (snd (participants_of_block b)) =
     map (\<lambda>p. team_row.truncate (p_team p)) (b_participants b)"
  by (simp add: participants_of_block_def Let_def truncate_set_team_keys comp_def)

lemma participants_of_round_rows:
  "map team_row.truncate (snd (participants_of_round r)) =
     concat (map (\<lambda>b. map (\<lambda>p. team_row.truncate (p_team p)) (b_participants b)) (r_blocks r))"
  by (simp add: participants_of_round_def Let_def map_concat comp_def participants_of_block_rows)

lemma participants_of_cuptrees_rows:
  "participants_of_cuptrees cs = (cs', Inr ts) \<Longrightarrow> map team_row.truncate ts = team_rows_of cs"
proof (induction cs arbitrary: cs' ts)
  case Nil
  then show ?case by (simp add: team_rows_of_def)
next
  case (Cons c cs)
  then show ?case
    by (auto simp: team_rows_of_def Let_def map_concat comp_def participants_of_round_rows
        split: option.splits prod.splits sum.splits)
qed

lemma get_all_participants_rows:
  assumes "get_all_participants cs = (cs', Inr roster)"
  shows "set roster = set (team_rows_of cs)"
proof -
  from assms obtain ts where ts: "participants_of_cuptrees cs = (cs', Inr ts)"
    and r: "roster = drop_duplicates (map team_row.truncate ts)"
    by (auto simp: get_all_participants_def split: prod.splits sum.splits if_splits)
  from participants_of_cuptrees_rows [OF ts] r show ?thesis
    by (simp add: set_drop_duplicates)
qed

lemma process_files_rows:
  "process_files fs = (fs', lg, Inr (ps, gs)) \<Longrightarrow>
     set (concat ps) = set (concat (map team_rows_of fs))"
proof (induction fs arbitrary: fs' lg ps gs)
  case Nil
  then show ?case by simp
next
  case (Cons f fs)
  from Cons.prems obtain c1 roster c2 lg1 games fs1 lg2 ps' gs' where
    a: "get_all_participants f = (c1, Inr roster)"
    and b: "process_files fs = (fs1, lg2, Inr (ps', gs'))"
    and c: "ps = roster # ps'"
    by (auto split: prod.splits sum.splits)
  from get_all_participants_rows [OF a] Cons.IH [OF b] c show ?case
    by simp
qed

text \<open>
  Claim C7, amended. The roster of a run that ends without an exception contains each
  distinct row of the nine projected attributes exactly once, and exactly the rows that
  the loaded files refer to. A team id is therefore in the roster once for every distinct
  attribute row that carries it: once when all references to the team agree on the nine
  attributes, more often when one of them (the ranking, say) differs.
\<close>

theorem roster_rows_unique:
  assumes "process_all_data max_cuptrees files = (files', lg, Inr (roster, games))"
  shows "distinct roster \<and>
         set roster = set (concat (map team_rows_of (loaded max_cuptrees files))) \<and>
         length (filter (\<lambda>row. t_id row = i) roster) =
           card {row \<in> set (concat (map team_rows_of (loaded max_cuptrees files))). t_id row = i}"
proof -
  from assms obtain ps gs where
    run: "process_files (loaded max_cuptrees files) = (files', lg, Inr (ps, gs))"
    and r: "roster = drop_duplicates (concat ps)"
    by (auto simp: process_all_data_def loaded_def Let_def split: prod.splits sum.splits if_splits)
  from r have d: "distinct roster" by (simp add: distinct_drop_duplicates)
  from r process_files_rows [OF run]
  have s: "set roster = set (concat (map team_rows_of (loaded max_cuptrees files)))"
    by (simp add: set_drop_duplicates)
  from d have "distinct (filter (\<lambda>row. t_id row = i) roster)" by simp
  from distinct_card [OF this]
  have "length (filter (\<lambda>row. t_id row = i) roster) = card {row \<in> set roster. t_id row = i}"
    by simp
  with d s show ?thesis by simp
qed


lemmas roster_defs = process_all_data_def get_all_participants_def participants_of_round_def
  participants_of_block_def set_team_keys_def team_row.truncate_def season_a_def season_b_def
  season_c_def

text \<open>
  Claim C7 as stated fails: the roster is de-duplicated on whole rows, so team 1, ranked 5
  in one season and 6 in the other, is in the roster twice.
\<close>

theorem roster_id_twice_counterexample:
  "\<exists>files' lg roster games.
      process_all_data None [season_a, season_b] = (files', lg, Inr (roster, games)) \<and>
      map t_id roster = [1, 2, 1] \<and> map t_ranking roster = [Some 5, Some 9, Some 6]"
  by (simp add: roster_defs sample_defs run_defs)

theorem roster_rows_unique_witness:
  "\<exists>files' lg roster games.
      process_all_data None [season_a, season_b] = (files', lg, Inr (roster, games)) \<and>
      distinct roster \<and>
      length (filter (\<lambda>row. t_id row = 1) roster) =
        card {row \<in> set (concat (map team_rows_of (loaded None [season_a, season_b]))). t_id row = 1}"
proof -
  obtain files' lg roster games where
    run: "process_all_data None [season_a, season_b] = (files', lg, Inr (roster, games))"
    by (simp add: roster_defs sample_defs run_defs)
  from roster_rows_unique [OF run, of 1] run show ?thesis by blast
qed

section \<open>What the flattening run writes into its input\<close>

subsection \<open>Participants\<close>

lemma participant_frame_refl: "participant_frame p p"
  by (simp add: participant_frame_def)

lemma participant_frame_set: "participant_frame p (set_team_keys p)"
  by (simp add: participant_frame_def set_team_keys_def)

lemma set_team_keys_idem: "set_team_keys (set_team_keys p) = set_team_keys p"
  by (simp add: set_team_keys_def)

lemma participant_frame_after_set:
  "participant_frame (set_team_keys p) p' \<Longrightarrow> participant_frame p p'"
  using set_team_keys_idem [of p]
  by (auto simp: participant_frame_def set_team_keys_def)

lemma participants_frame_refl: "list_all2 participant_frame ps ps"
  by (simp add: list_all2_refl participant_frame_refl)

lemma participants_frame_after_set:
  "list_all2 participant_frame (map set_team_keys ps) ps' \<Longrightarrow> list_all2 participant_frame ps ps'"
  by (simp add: list_all2_map1) (erule list_all2_mono, erule participant_frame_after_set)

subsection \<open>Blocks\<close>

lemma block_frame_refl: "block_frame b b"
  by (simp add: block_frame_def participants_frame_refl)

lemma block_frame_write: "block_frame b (fst (participants_of_block b))"
  by (simp add: block_frame_def participants_of_block_def Let_def list_all2_map2
      list_all2_refl participant_frame_set)

lemma block_frame_after_write:
  assumes "block_frame (fst (participants_of_block b)) b'"
  shows "block_frame b b'"
proof -
  let ?w = "b\<lparr>b_participants := map set_team_keys (b_participants b)\<rparr>"
  from assms have f: "block_frame ?w b'"
    by (simp add: participants_of_block_def Let_def)
  then have eq: "b' = ?w\<lparr>b_result := b_result b', b_participants := b_participants b'\<rparr>"
    by (simp add: block_frame_def)
  have eq': "b' = b\<lparr>b_result := b_result b', b_participants := b_participants b'\<rparr>"
    by (subst eq) simp
  from f have res: "b_result b' = b_result b \<or>
       (is_sentinel (dict_get (b_result b)) \<and>
        (case (b_homeTeamScore b, b_awayTeamScore b) of
           (Val h, Val a) \<Rightarrow> b_result b' = Val (h @ '':'' @ a)
         | _ \<Rightarrow> False))"
    by (simp add: block_frame_def)
  from f have "list_all2 participant_frame (map set_team_keys (b_participants b)) (b_participants b')"
    by (simp add: block_frame_def)
  then have ps: "list_all2 participant_frame (b_participants b) (b_participants b')"
    by (rule participants_frame_after_set)
  from eq' res ps show ?thesis unfolding block_frame_def by blast
qed

lemma block_frame_rewrite: "rewrite_result b = Inr b' \<Longrightarrow> is_sentinel (dict_get (b_result b)) \<Longrightarrow> block_frame b b'"
  by (auto simp: rewrite_result_def block_frame_def participants_frame_refl split: field.splits)

lemma extract_block_fst:
  "fst (extract_block tn ut rd b) = b \<or>
   (is_sentinel (dict_get (b_result b)) \<and> rewrite_result b = Inr (fst (extract_block tn ut rd b)))"
  unfolding extract_block_def
  by (auto simp: Let_def split: sum.splits list.splits)

lemma block_frame_extract: "block_frame b (fst (extract_block tn ut rd b))"
  using extract_block_fst [of tn ut rd b] block_frame_refl [of b] block_frame_rewrite
  by auto

lemma blocks_frame_refl: "list_all2 block_frame bs bs"
  by (simp add: list_all2_refl block_frame_refl)

lemma blocks_frame_extract: "list_all2 block_frame bs (fst (extract_blocks tn ut rd bs))"
proof (induction bs)
  case Nil
  show ?case by simp
next
  case (Cons b bs)
  have hd: "block_frame b (fst (extract_block tn ut rd b))" by (rule block_frame_extract)
  show ?case
  proof (cases "extract_block tn ut rd b")
    case (fields b' lg out)
    with hd have b': "block_frame b b'" by simp
    show ?thesis
    proof (cases out)
      case (Inl e)
      with fields b' show ?thesis by (simp add: blocks_frame_refl)
    next
      case (Inr row)
      with fields b' Cons.IH show ?thesis
        by (auto split: prod.splits sum.splits)
    qed
  qed
qed

subsection \<open>Rounds\<close>

lemma round_frame_refl: "round_frame r r"
  by (simp add: round_frame_def blocks_frame_refl)

lemma rounds_frame_refl: "list_all2 round_frame rs rs"
  by (simp add: list_all2_refl round_frame_refl)

lemma round_frame_blocks: "list_all2 block_frame (r_blocks r) bs' \<Longrightarrow> round_frame r (r\<lparr>r_blocks := bs'\<rparr>)"
  by (simp add: round_frame_def)

lemma rounds_frame_extract: "list_all2 round_frame rs (fst (extract_rounds tn ut rs))"
proof (induction rs)
  case Nil
  show ?case by simp
next
  case (Cons r rs)
  show ?case
  proof (cases "extract_blocks tn ut (r_description r) (r_blocks r)")
    case (fields bs' lg out)
    with blocks_frame_extract [of "r_blocks r" tn ut "r_description r"]
    have "round_frame r (r\<lparr>r_blocks := bs'\<rparr>)" by (simp add: round_frame_blocks)
    with fields Cons.IH show ?thesis
      by (auto simp: rounds_frame_refl split: prod.splits sum.splits)
  qed
qed

lemma round_frame_write: "round_frame r (fst (participants_of_round r))"
  by (simp add: round_frame_def participants_of_round_def Let_def list_all2_map2
      list_all2_refl block_frame_write)

lemma round_frame_after_write:
  assumes "round_frame (fst (participants_of_round r)) r'"
  shows "round_frame r r'"
proof -
  let ?w = "r\<lparr>r_blocks := map (\<lambda>b. fst (participants_of_block b)) (r_blocks r)\<rparr>"
  from assms have f: "round_frame ?w r'"
    by (simp add: participants_of_round_def Let_def comp_def)
  then have eq: "r' = ?w\<lparr>r_blocks := r_blocks r'\<rparr>" by (simp add: round_frame_def)
  have eq': "r' = r\<lparr>r_blocks := r_blocks r'\<rparr>" by (subst eq) simp
  from f have "list_all2 block_frame (map (\<lambda>b. fst (participants_of_block b)) (r_blocks r)) (r_blocks r')"
    by (simp add: round_frame_def)
  then have "list_all2 (\<lambda>b b'. block_frame (fst (participants_of_block b)) b') (r_blocks r) (r_blocks r')"
    by (simp add: list_all2_map1)
  then have "list_all2 block_frame (r_blocks r) (r_blocks r')"
    by (rule list_all2_mono) (rule block_frame_after_write)
  with eq' show ?thesis unfolding round_frame_def by blast
qed

subsection \<open>Cup trees\<close>

lemma cuptree_frame_refl: "cuptree_frame c c"
  by (cases "c_rounds c") (simp_all add: cuptree_frame_def rounds_frame_refl)

lemma cuptrees_frame_refl: "list_all2 cuptree_frame cs cs"
  by (simp add: list_all2_refl cuptree_frame_refl)

lemma cuptree_frame_rounds:
  "c_rounds c = Some rs \<Longrightarrow> list_all2 round_frame rs rs' \<Longrightarrow> cuptree_frame c (c\<lparr>c_rounds := Some rs'\<rparr>)"
  by (simp add: cuptree_frame_def)

lemma cuptrees_frame_extract: "list_all2 cuptree_frame cs (fst (extract_cuptrees cs))"
proof (induction cs)
  case Nil
  show ?case by simp
next
  case (Cons c cs)
  show ?case
  proof (cases "c_rounds c")
    case None
    with Cons.IH show ?thesis
      by (auto simp: cuptree_frame_refl split: prod.splits)
  next
    case (Some rs)
    show ?thesis
    proof (cases "extract_rounds (c_tournamentName c) (c_uniqueTournament c) rs")
      case (fields rs' lg out)
      with rounds_frame_extract [of rs "c_tournamentName c" "c_uniqueTournament c"]
      have "cuptree_frame c (c\<lparr>c_rounds := Some rs'\<rparr>)"
        using Some by (simp add: cuptree_frame_rounds)
      with fields Some Cons.IH show ?thesis
        by (auto simp: cuptrees_frame_refl split: prod.splits sum.splits)
    qed
  qed
qed

lemma cuptree_frame_written: "cuptree_frame c (written c)"
  by (cases "c_rounds c")
     (simp_all add: cuptree_frame_def written_def list_all2_map2 list_all2_refl round_frame_write)

lemma cuptree_frame_after_written:
  assumes "cuptree_frame (written c) c'"
  shows "cuptree_frame c c'"
proof -
  from assms have eq: "c' = (written c)\<lparr>c_rounds := c_rounds c'\<rparr>"
    by (simp add: cuptree_frame_def)
  have eq': "c' = c\<lparr>c_rounds := c_rounds c'\<rparr>"
    by (subst eq) (simp add: written_def)
  from assms have rel: "rel_option (list_all2 round_frame) (c_rounds (written c)) (c_rounds c')"
    by (simp add: cuptree_frame_def)
  have "rel_option (list_all2 round_frame) (c_rounds c) (c_rounds c')"
  proof (cases "c_rounds c")
    case None
    with rel show ?thesis by (simp add: written_def)
  next
    case (Some rs)
    with rel obtain rs' where rs': "c_rounds c' = Some rs'"
      and l: "list_all2 round_frame (map (\<lambda>r. fst (participants_of_round r)) rs) rs'"
      by (cases "c_rounds c'") (auto simp: written_def)
    from l have "list_all2 (\<lambda>r r'. round_frame (fst (participants_of_round r)) r') rs rs'"
      by (simp add: list_all2_map1)
    then have "list_all2 round_frame rs rs'"
      by (rule list_all2_mono) (rule round_frame_after_write)
    with Some rs' show ?thesis by simp
  qed
  with eq' show ?thesis unfolding cuptree_frame_def by blast
qed

lemma participants_of_cuptrees_frame:
  "list_all2 cuptree_frame cs (fst (participants_of_cuptrees cs))"
proof (induction cs)
  case Nil
  show ?case by simp
next
  case (Cons c cs)
  show ?case
  proof (cases "c_rounds c")
    case None
    then show ?thesis by (simp add: cuptrees_frame_refl cuptree_frame_refl)
  next
    case (Some rs)
    have "cuptree_frame c (written c)" by (rule cuptree_frame_written)
    with Some have "cuptree_frame c (c\<lparr>c_rounds := Some (map (\<lambda>r. fst (participants_of_round r)) rs)\<rparr>)"
      by (simp add: written_def)
    with Some Cons.IH show ?thesis
      by (auto simp: Let_def comp_def split: prod.splits sum.splits)
  qed
qed

lemma participants_of_cuptrees_written:
  "participants_of_cuptrees cs = (cs', Inr ts) \<Longrightarrow> cs' = map written cs"
proof (induction cs arbitrary: cs' ts)
  case Nil
  then show ?case by simp
next
  case (Cons c cs)
  then show ?case
    by (auto simp: Let_def comp_def written_def split: option.splits prod.splits sum.splits)
qed

lemma get_all_participants_frame: "list_all2 cuptree_frame cs (fst (get_all_participants cs))"
  using participants_of_cuptrees_frame [of cs]
  by (auto simp: get_all_participants_def split: prod.splits sum.splits)

lemma get_all_participants_written:
  "get_all_participants cs = (cs', Inr roster) \<Longrightarrow> cs' = map written cs"
  by (auto simp: get_all_participants_def split: prod.splits sum.splits if_splits
      dest: participants_of_cuptrees_written)

lemma extract_after_written_frame:
  "list_all2 cuptree_frame cs (fst (extract_games_from_cuptree (map written cs)))"
proof -
  have "list_all2 cuptree_frame (map written cs) (fst (extract_cuptrees (map written cs)))"
    by (rule cuptrees_frame_extract)
  then have "list_all2 (\<lambda>c c'. cuptree_frame (written c) c') cs (fst (extract_cuptrees (map written cs)))"
    by (simp add: list_all2_map1)
  then have "list_all2 cuptree_frame cs (fst (extract_cuptrees (map written cs)))"
    by (rule list_all2_mono) (rule cuptree_frame_after_written)
  then show ?thesis by (simp add: extract_games_fst)
qed

lemma files_frame_refl: "list_all2 (list_all2 cuptree_frame) fs fs"
  by (simp add: list_all2_refl cuptrees_frame_refl)

lemma process_files_frame: "list_all2 (list_all2 cuptree_frame) fs (fst (process_files fs))"
proof (induction fs)
  case Nil
  show ?case by simp
next
  case (Cons f fs)
  show ?case
  proof (cases "get_all_participants f")
    case (Pair c1 res)
    show ?thesis
    proof (cases res)
      case (Inl e)
      with Pair get_all_participants_frame [of f] show ?thesis
        by (simp add: files_frame_refl)
    next
      case (Inr roster)
      with Pair have c1: "c1 = map written f" by (auto dest: get_all_participants_written)
      have fr: "list_all2 cuptree_frame f (fst (extract_games_from_cuptree c1))"
        unfolding c1 by (rule extract_after_written_frame)
      with Pair Inr Cons.IH show ?thesis
        by (auto simp: files_frame_refl split: prod.splits sum.splits)
    qed
  qed
qed

text \<open>
  Claim C8, amended. Roster extraction, match extraction and the whole flattening run
  leave every loaded document as it was except for two writes in place: a block whose
  result is exactly \<open>home won\<close>, \<open>away won\<close> or \<open>on-going\<close> and whose scores are strings
  has its \<open>result\<close> overwritten by \<open>homeTeamScore:awayTeamScore\<close>, and a participant's
  team record gets the keys \<open>winner\<close>, \<open>order\<close> and \<open>teamSeed\<close> set from the
  participant. Every other field of every block, participant, round and cup tree is
  unchanged, also when the run ends in an exception.
\<close>

theorem documents_written_only_in_place:
  "list_all2 cuptree_frame cs (fst (get_all_participants cs)) \<and>
   list_all2 cuptree_frame cs (fst (extract_games_from_cuptree cs)) \<and>
   list_all2 (list_all2 cuptree_frame) (loaded max_cuptrees files)
     (fst (process_all_data max_cuptrees files))"
proof -
  have a: "list_all2 cuptree_frame cs (fst (get_all_participants cs))"
    by (rule get_all_participants_frame)
  have b: "list_all2 cuptree_frame cs (fst (extract_games_from_cuptree cs))"
    by (simp add: extract_games_fst cuptrees_frame_extract)
  have c: "list_all2 (list_all2 cuptree_frame) (loaded max_cuptrees files)
     (fst (process_all_data max_cuptrees files))"
  proof (cases "files = []")
    case True
    then show ?thesis
      by (cases max_cuptrees) (simp_all add: process_all_data_def loaded_def)
  next
    case False
    with process_files_frame [of "loaded max_cuptrees files"] show ?thesis
      by (auto simp: process_all_data_def loaded_def Let_def split: prod.splits sum.splits)
  qed
  from a b c show ?thesis by blast
qed

text \<open>
  Claim C8 as stated fails: match extraction overwrites the status result of the input
  block, and roster extraction writes three keys into the input team records.
\<close>

theorem documents_written_counterexample:
  "fst (extract_games_from_cuptree season_c) = season_a \<and>
   season_a \<noteq> season_c \<and>
   fst (get_all_participants season_c) =
     [final_of ''Australian Open''
        [match_block 7 (Val ''home won'') (Val ''2'') (Val ''1'')
           [entrant ((player 1 ''A'' (Some 5))\<lparr>t_winner := Val True, t_order := Val 1, t_teamSeed := Null\<rparr>) True 1,
            entrant ((player 2 ''B'' (Some 9))\<lparr>t_winner := Val False, t_order := Val 2, t_teamSeed := Null\<rparr>) False 2]]] \<and>
   fst (get_all_participants season_c) \<noteq> season_c"
  by (simp add: roster_defs sample_defs run_defs)

theorem documents_written_only_in_place_witness:
  "list_all2 cuptree_frame season_c season_a \<and>
   list_all2 (list_all2 cuptree_frame) [season_a, season_b]
     (fst (process_all_data (Some 2) [season_a, season_b, season_c]))"
proof -
  have run: "fst (extract_games_from_cuptree season_c) = season_a"
    by (simp add: roster_defs sample_defs run_defs)
  have ld: "loaded (Some 2) [season_a, season_b, season_c] = [season_a, season_b]"
    by (simp add: loaded_def)
  from documents_written_only_in_place [of season_c "Some 2" "[season_a, season_b, season_c]"] run ld
  show ?thesis by simp
qed

section \<open>Properties of symmetrization and labels\<close>

lemma symmetrize_enriched:
  "symmetrize_games
     (enriched idx fin res hs as gid ev dt hid aid rd tn ut idh nmh bdh ida nma bda) =
   Inr (enriched [0 ..< 2 * length idx] (fin @ fin) (res @ map reverse_result res)
          (hs @ as) (as @ hs) (gid @ gid) (ev @ ev) (dt @ dt) (hid @ aid) (aid @ hid)
          (rd @ rd) (tn @ tn) (ut @ ut)
          (idh @ ida) (nmh @ nma) (bdh @ bda) (ida @ idh) (nma @ nmh) (bda @ bdh))"
  by (simp add: symmetrize_games_def enriched_def columns_def swap_step_def swap_pair_def
      concat_frames_def Let_def mult_2)


subsection \<open>Splitting at the colon\<close>

lemma split_on_ne: "split_on sep s \<noteq> []"
  by (induction s) (auto simp: Let_def)

lemma split_on_plain: "sep \<notin> set a \<Longrightarrow> split_on sep a = [a]"
  by (induction a) (auto simp: Let_def)

lemma split_on_app: "sep \<notin> set a \<Longrightarrow> split_on sep (a @ sep # t) = a # split_on sep t"
  by (induction a) (auto simp: Let_def)

lemma split_on_parts: "p \<in> set (split_on sep s) \<Longrightarrow> sep \<notin> set p"
proof (induction s arbitrary: p)
  case Nil
  then show ?case by simp
next
  case (Cons c cs)
  obtain q qs where q: "split_on sep cs = q # qs"
    using split_on_ne [of sep cs] by (cases "split_on sep cs") auto
  from Cons.IH q have tl: "\<And>x. x \<in> set (q # qs) \<Longrightarrow> sep \<notin> set x" by simp
  show ?case
  proof (cases "c = sep")
    case True
    with Cons.prems q tl show ?thesis by (auto simp: Let_def)
  next
    case False
    with Cons.prems q have "p = c # q \<or> p \<in> set qs" by (auto simp: Let_def)
    with False tl show ?thesis by auto
  qed
qed

lemma split_on_two: "sep \<in> set s \<Longrightarrow> \<exists>p0 p1 rest. split_on sep s = p0 # p1 # rest"
proof (induction s)
  case Nil
  then show ?case by simp
next
  case (Cons c cs)
  obtain q qs where q: "split_on sep cs = q # qs"
    using split_on_ne [of sep cs] by (cases "split_on sep cs") auto
  show ?case
  proof (cases "c = sep")
    case True
    with q show ?thesis by (simp add: Let_def)
  next
    case False
    with Cons.prems have "sep \<in> set cs" by simp
    from Cons.IH [OF this] False show ?thesis by (auto simp: Let_def)
  qed
qed

lemma split_on_pair:
  "sep \<notin> set a \<Longrightarrow> sep \<notin> set b \<Longrightarrow> split_on sep (a @ sep # b) = [a, b]"
  by (simp add: split_on_app split_on_plain)

lemma reverse_result_score:
  assumes "CHR '':'' \<notin> set h" "CHR '':'' \<notin> set a"
  shows "reverse_result (CStr (h @ '':'' @ a)) = CStr (a @ '':'' @ h)"
  using assms by (simp add: split_on_pair)

subsection \<open>Labels of a row and of its mirror\<close>

lemma define_label_scores:
  "define_label r = Inr l \<longleftrightarrow>
     (\<exists>h a. parsed_scores r = Some (h, a) \<and> l = (if h > a then ''home'' else ''away''))"
proof (cases r)
  case (CStr s)
  show ?thesis
  proof (cases "CHR '':'' \<in> set s")
    case True
    from split_on_two [OF this] obtain p0 p1 rest where "split_on CHR '':'' s = p0 # p1 # rest"
      by blast
    with CStr True show ?thesis
      by (cases "py_int p0"; cases "py_int p1") auto
  next
    case False
    with CStr show ?thesis by simp
  qed
qed simp_all

lemma parsed_scores_reverse:
  assumes "parsed_scores r = Some (h, a)"
  shows "parsed_scores (reverse_result r) = Some (a, h)"
proof (cases r)
  case (CStr s)
  with assms have colon: "CHR '':'' \<in> set s" by (auto split: if_splits)
  from split_on_two [OF this] obtain p0 p1 rest where sp: "split_on CHR '':'' s = p0 # p1 # rest"
    by blast
  from split_on_parts [of p0 "CHR '':''" s] split_on_parts [of p1 "CHR '':''" s] sp
  have no: "CHR '':'' \<notin> set p0" "CHR '':'' \<notin> set p1" by simp_all
  from assms CStr colon sp have ints: "py_int p0 = Some h" "py_int p1 = Some a"
    by (auto split: option.splits)
  from CStr colon sp have rev: "reverse_result r = CStr (p1 @ CHR '':'' # p0)" by simp
  have "split_on CHR '':'' (p1 @ CHR '':'' # p0) = [p1, p0]"
    by (rule split_on_pair [OF no(2) no(1)])
  with rev ints show ?thesis by simp
qed (use assms in simp_all)


text \<open>
  Claim C3. One application of the symmetrization to an enriched table returns a table
  with a fresh index \<open>0 .. 2n - 1\<close> whose every column is the original column followed
  by the mirrored one: the columns named \<open>home\<close> and their \<open>away\<close> counterparts change
  places, the result column is reversed cell by cell, the other columns repeat. With
  columns of the length of the index, row \<open>i\<close> is the original row \<open>i\<close> and row
  \<open>n + i\<close> its mirror. A result \<open>H:A\<close> is reversed to \<open>A:H\<close>.
\<close>

theorem symmetrize_games_doubles:
  "symmetrize_games
     (enriched idx fin res hs as gid ev dt hid aid rd tn ut idh nmh bdh ida nma bda) =
   Inr (enriched [0 ..< 2 * length idx] (fin @ fin) (res @ map reverse_result res)
          (hs @ as) (as @ hs) (gid @ gid) (ev @ ev) (dt @ dt) (hid @ aid) (aid @ hid)
          (rd @ rd) (tn @ tn) (ut @ ut)
          (idh @ ida) (nmh @ nma) (bdh @ bda) (ida @ idh) (nma @ nmh) (bda @ bdh)) \<and>
   (list_all (\<lambda>col. length col = length idx)
        [fin, res, hs, as, gid, ev, dt, hid, aid, rd, tn, ut, idh, nmh, bdh, ida, nma, bda] \<and>
    i < length idx \<longrightarrow>
      row_at (enriched [0 ..< 2 * length idx] (fin @ fin) (res @ map reverse_result res)
          (hs @ as) (as @ hs) (gid @ gid) (ev @ ev) (dt @ dt) (hid @ aid) (aid @ hid)
          (rd @ rd) (tn @ tn) (ut @ ut)
          (idh @ ida) (nmh @ nma) (bdh @ bda) (ida @ idh) (nma @ nmh) (bda @ bdh)) i =
        row_at (enriched idx fin res hs as gid ev dt hid aid rd tn ut idh nmh bdh ida nma bda) i \<and>
      row_at (enriched [0 ..< 2 * length idx] (fin @ fin) (res @ map reverse_result res)
          (hs @ as) (as @ hs) (gid @ gid) (ev @ ev) (dt @ dt) (hid @ aid) (aid @ hid)
          (rd @ rd) (tn @ tn) (ut @ ut)
          (idh @ ida) (nmh @ nma) (bdh @ bda) (ida @ idh) (nma @ nmh) (bda @ bdh))
        (length idx + i) =
        [(''finished'', fin ! i),
         (''result'', reverse_result (res ! i)),
         (''homeTeamScore'', as ! i),
         (''awayTeamScore'', hs ! i),
         (''id'', gid ! i),
         (''events'', ev ! i),
         (''seriesStartDate'', dt ! i),
         (''home_id'', aid ! i),
         (''away_id'', hid ! i),
         (''round_description'', rd ! i),
         (''tournamentName'', tn ! i),
         (''uniqueTournament'', ut ! i),
         (''id_home'', ida ! i),
         (''name_home'', nma ! i),
         (''birthdate_home'', bda ! i),
         (''id_away'', idh ! i),
         (''name_away'', nmh ! i),
         (''birthdate_away'', bdh ! i)]) \<and>
   (CHR '':'' \<notin> set h \<and> CHR '':'' \<notin> set a \<longrightarrow>
      reverse_result (CStr (h @ '':'' @ a)) = CStr (a @ '':'' @ h))"
proof -
  let ?S = "enriched [0 ..< 2 * length idx] (fin @ fin) (res @ map reverse_result res)
          (hs @ as) (as @ hs) (gid @ gid) (ev @ ev) (dt @ dt) (hid @ aid) (aid @ hid)
          (rd @ rd) (tn @ tn) (ut @ ut)
          (idh @ ida) (nmh @ nma) (bdh @ bda) (ida @ idh) (nma @ nmh) (bda @ bdh)"
  have run: "symmetrize_games
     (enriched idx fin res hs as gid ev dt hid aid rd tn ut idh nmh bdh ida nma bda) = Inr ?S"
    by (rule symmetrize_enriched)
  have rows: "row_at ?S i =
        row_at (enriched idx fin res hs as gid ev dt hid aid rd tn ut idh nmh bdh ida nma bda) i \<and>
      row_at ?S (length idx + i) =
        [(''finished'', fin ! i),
         (''result'', reverse_result (res ! i)),
         (''homeTeamScore'', as ! i),
         (''awayTeamScore'', hs ! i),
         (''id'', gid ! i),
         (''events'', ev ! i),
         (''seriesStartDate'', dt ! i),
         (''home_id'', aid ! i),
         (''away_id'', hid ! i),
         (''round_description'', rd ! i),
         (''tournamentName'', tn ! i),
         (''uniqueTournament'', ut ! i),
         (''id_home'', ida ! i),
         (''name_home'', nma ! i),
         (''birthdate_home'', bda ! i),
         (''id_away'', idh ! i),
         (''name_away'', nmh ! i),
         (''birthdate_away'', bdh ! i)]"
    if "list_all (\<lambda>col. length col = length idx)
        [fin, res, hs, as, gid, ev, dt, hid, aid, rd, tn, ut, idh, nmh, bdh, ida, nma, bda]"
      and "i < length idx"
    using that by (simp add: row_at_def enriched_def nth_append)
  have rev: "reverse_result (CStr (h @ '':'' @ a)) = CStr (a @ '':'' @ h)"
    if "CHR '':'' \<notin> set h" "CHR '':'' \<notin> set a"
    using that by (rule reverse_result_score)
  from run rows rev show ?thesis by blast
qed


theorem symmetrize_games_doubles_witness:
  "symmetrize_games (one_match (CStr ''2:1'') (CInt 2) (CInt 1)) =
     Inr (enriched [0, 1] [CBool True, CBool True] [CStr ''2:1'', CStr ''1:2'']
            [CInt 2, CInt 1] [CInt 1, CInt 2] [CInt 7, CInt 7] [CNaN, CNaN]
            [CStr ''2023-01-18'', CStr ''2023-01-18''] [CInt 1, CInt 2] [CInt 2, CInt 1]
            [CStr ''F'', CStr ''F''] [CStr ''Australian Open'', CStr ''Australian Open'']
            [CStr ''Australian Open'', CStr ''Australian Open'']
            [CInt 1, CInt 2] [CStr ''A'', CStr ''B''] [CStr ''1990-05-01'', CStr ''1995-07-02'']
            [CInt 2, CInt 1] [CStr ''B'', CStr ''A''] [CStr ''1995-07-02'', CStr ''1990-05-01'']) \<and>
   reverse_result (CStr ''3:1'') = CStr ''1:3''"
proof -
  note inst = symmetrize_games_doubles [of "[0]" "[CBool True]" "[CStr ''2:1'']" "[CInt 2]" "[CInt 1]"
      "[CInt 7]" "[CNaN]" "[CStr ''2023-01-18'']" "[CInt 1]" "[CInt 2]" "[CStr ''F'']"
      "[CStr ''Australian Open'']" "[CStr ''Australian Open'']"
      "[CInt 1]" "[CStr ''A'']" "[CStr ''1990-05-01'']" "[CInt 2]" "[CStr ''B'']"
      "[CStr ''1995-07-02'']" 0 "''3''" "''1''"]
  have up: "[0 ..< 2 * length [0::nat]] = [0, 1]"
    by (simp add: upt_rec)
  have r21: "reverse_result (CStr ''2:1'') = CStr ''1:2''"
    by (simp add: Let_def)
  from inst have a: "symmetrize_games (one_match (CStr ''2:1'') (CInt 2) (CInt 1)) =
     Inr (enriched [0, 1] [CBool True, CBool True] [CStr ''2:1'', CStr ''1:2'']
            [CInt 2, CInt 1] [CInt 1, CInt 2] [CInt 7, CInt 7] [CNaN, CNaN]
            [CStr ''2023-01-18'', CStr ''2023-01-18''] [CInt 1, CInt 2] [CInt 2, CInt 1]
            [CStr ''F'', CStr ''F''] [CStr ''Australian Open'', CStr ''Australian Open'']
            [CStr ''Australian Open'', CStr ''Australian Open'']
            [CInt 1, CInt 2] [CStr ''A'', CStr ''B''] [CStr ''1990-05-01'', CStr ''1995-07-02'']
            [CInt 2, CInt 1] [CStr ''B'', CStr ''A''] [CStr ''1995-07-02'', CStr ''1990-05-01''])"
    unfolding one_match_def up r21 by simp
  have "CHR '':'' \<notin> set ''3'' \<and> CHR '':'' \<notin> set ''1''" by simp
  with inst have b: "reverse_result (CStr (''3'' @ '':'' @ ''1'')) = CStr (''1'' @ '':'' @ ''3'')"
    by blast
  from a b show ?thesis by simp
qed

text \<open>
  Claim C1, amended. For a row of the enriched table whose result gets a label, the
  symmetrized table holds exactly two rows for it, at \<open>i\<close> and \<open>n + i\<close>, with the result
  and the reversed result. Their labels are \<open>home\<close> exactly for the larger first score
  and the larger second score respectively: a \<open>home\<close> row always has an \<open>away\<close> mirror,
  the two labels differ whenever the two scores differ, and for a tied score both rows
  are labelled \<open>away\<close>.
\<close>

theorem mirrored_labels:
  assumes "i < length res" and "define_label (res ! i) = Inr l"
  shows "\<exists>S col h a.
           symmetrize_games
             (enriched idx fin res hs as gid ev dt hid aid rd tn ut idh nmh bdh ida nma bda) =
             Inr S \<and>
           map_of (f_data S) ''result'' = Some col \<and>
           length col = 2 * length res \<and>
           col ! i = res ! i \<and>
           col ! (length res + i) = reverse_result (res ! i) \<and>
           parsed_scores (res ! i) = Some (h, a) \<and>
           define_label (col ! i) = Inr (if h > a then ''home'' else ''away'') \<and>
           define_label (col ! (length res + i)) = Inr (if a > h then ''home'' else ''away'') \<and>
           (l = ''home'' \<longrightarrow> define_label (col ! (length res + i)) = Inr ''away'') \<and>
           (h \<noteq> a \<longrightarrow> define_label (col ! i) \<noteq> define_label (col ! (length res + i))) \<and>
           (h = a \<longrightarrow> define_label (col ! i) = Inr ''away'' \<and>
                      define_label (col ! (length res + i)) = Inr ''away'')"
proof -
  let ?S = "enriched [0 ..< 2 * length idx] (fin @ fin) (res @ map reverse_result res)
          (hs @ as) (as @ hs) (gid @ gid) (ev @ ev) (dt @ dt) (hid @ aid) (aid @ hid)
          (rd @ rd) (tn @ tn) (ut @ ut)
          (idh @ ida) (nmh @ nma) (bdh @ bda) (ida @ idh) (nma @ nmh) (bda @ bdh)"
  let ?col = "res @ map reverse_result res"
  have run: "symmetrize_games
     (enriched idx fin res hs as gid ev dt hid aid rd tn ut idh nmh bdh ida nma bda) = Inr ?S"
    by (rule symmetrize_enriched)
  have col: "map_of (f_data ?S) ''result'' = Some ?col"
    by (simp add: enriched_def)
  have len: "length ?col = 2 * length res" by simp
  from assms(1) have c1: "?col ! i = res ! i" by (simp add: nth_append)
  from assms(1) have c2: "?col ! (length res + i) = reverse_result (res ! i)"
    by (simp add: nth_append)
  from assms(2) obtain h a where ps: "parsed_scores (res ! i) = Some (h, a)"
    and l: "l = (if h > a then ''home'' else ''away'')"
    using define_label_scores [of "res ! i" l] by blast
  from ps l have d1: "define_label (res ! i) = Inr (if h > a then ''home'' else ''away'')"
    using define_label_scores [of "res ! i" l] by simp
  from parsed_scores_reverse [OF ps]
  have d2: "define_label (reverse_result (res ! i)) = Inr (if a > h then ''home'' else ''away'')"
    using define_label_scores [of "reverse_result (res ! i)" "if a > h then ''home'' else ''away''"]
    by blast
  have e1: "l = ''home'' \<longrightarrow> define_label (reverse_result (res ! i)) = Inr ''away''"
    using l d2 by (auto split: if_splits)
  have e2: "h \<noteq> a \<longrightarrow> define_label (res ! i) \<noteq> define_label (reverse_result (res ! i))"
    unfolding d1 d2 by auto
  have e3: "h = a \<longrightarrow> define_label (res ! i) = Inr ''away'' \<and>
      define_label (reverse_result (res ! i)) = Inr ''away''"
    unfolding d1 d2 by auto
  from run col len c1 c2 ps d1 d2 e1 e2 e3 show ?thesis
    by (intro exI [of _ ?S] exI [of _ ?col] exI [of _ h] exI [of _ a]) (simp only: simp_thms)
qed


text \<open>Unfolding set for running the label on a concrete result.\<close>

lemmas label_defs = py_int_def strip_def py_space_def is_digit_def digit_val_def Let_def

text \<open>
  Claim C1 as stated fails on ties: \<open>1:1\<close> passes the score validator, is its own
  reversal, and both of its rows are labelled \<open>away\<close>.
\<close>

theorem tied_score_counterexample:
  "\<exists>S. symmetrize_games (one_match (CStr ''1:1'') (CInt 1) (CInt 1)) = Inr S \<and>
        map_of (f_data S) ''result'' = Some [CStr ''1:1'', CStr ''1:1''] \<and>
        validate_score_format (Some ''1:1'') \<and>
        define_label (CStr ''1:1'') = Inr ''away'' \<and>
        define_label (reverse_result (CStr ''1:1'')) = Inr ''away''"
proof -
  have "symmetrize_games (one_match (CStr ''1:1'') (CInt 1) (CInt 1)) =
      Inr (enriched [0 ..< 2 * length [0::nat]] ([CBool True] @ [CBool True])
            ([CStr ''1:1''] @ map reverse_result [CStr ''1:1''])
            ([CInt 1] @ [CInt 1]) ([CInt 1] @ [CInt 1]) ([CInt 7] @ [CInt 7]) ([CNaN] @ [CNaN])
            ([CStr ''2023-01-18''] @ [CStr ''2023-01-18'']) ([CInt 1] @ [CInt 2]) ([CInt 2] @ [CInt 1])
            ([CStr ''F''] @ [CStr ''F'']) ([CStr ''Australian Open''] @ [CStr ''Australian Open''])
            ([CStr ''Australian Open''] @ [CStr ''Australian Open''])
            ([CInt 1] @ [CInt 2]) ([CStr ''A''] @ [CStr ''B''])
            ([CStr ''1990-05-01''] @ [CStr ''1995-07-02''])
            ([CInt 2] @ [CInt 1]) ([CStr ''B''] @ [CStr ''A''])
            ([CStr ''1995-07-02''] @ [CStr ''1990-05-01'']))"
    unfolding one_match_def by (rule symmetrize_enriched)
  moreover have "reverse_result (CStr ''1:1'') = CStr ''1:1''" by (simp add: Let_def)
  moreover have "define_label (CStr ''1:1'') = Inr ''away''" by (simp add: label_defs)
  moreover have "validate_score_format (Some ''1:1'')" by (simp add: digit03_def)
  ultimately show ?thesis by (simp add: enriched_def)
qed

theorem mirrored_labels_witness:
  "\<exists>S col. symmetrize_games (one_match (CStr ''2:1'') (CInt 2) (CInt 1)) = Inr S \<and>
        map_of (f_data S) ''result'' = Some col \<and>
        length col = 2 \<and>
        define_label (col ! 0) = Inr ''home'' \<and>
        define_label (col ! 1) = Inr ''away''"
proof -
  have lbl: "define_label ([CStr ''2:1''] ! 0) = Inr ''home''"
    by (simp add: label_defs)
  have "0 < length [CStr ''2:1'']" by simp
  from mirrored_labels [OF this lbl, of "[0]" "[CBool True]" "[CInt 2]" "[CInt 1]"
      "[CInt 7]" "[CNaN]" "[CStr ''2023-01-18'']" "[CInt 1]" "[CInt 2]" "[CStr ''F'']"
      "[CStr ''Australian Open'']" "[CStr ''Australian Open'']"
      "[CInt 1]" "[CStr ''A'']" "[CStr ''1990-05-01'']" "[CInt 2]" "[CStr ''B'']"
      "[CStr ''1995-07-02'']"]
  obtain S col h a where
    run: "symmetrize_games (one_match (CStr ''2:1'') (CInt 2) (CInt 1)) = Inr S"
    and col: "map_of (f_data S) ''result'' = Some col"
    and len: "length col = 2 * length [CStr ''2:1'']"
    and c0: "col ! 0 = [CStr ''2:1''] ! 0"
    and home: "''home'' = ''home'' \<longrightarrow>
        define_label (col ! (length [CStr ''2:1''] + 0)) = Inr ''away''"
    unfolding one_match_def by blast
  from c0 lbl have "define_label (col ! 0) = Inr ''home''" by simp
  moreover from home have "define_label (col ! 1) = Inr ''away''" by simp
  moreover from len have "length col = 2" by simp
  ultimately show ?thesis using run col by blast
qed

section \<open>Properties of the feature table\<close>

text \<open>Unfolding set for running the feature builder on a concrete table.\<close>

lemmas feature_defs = build_features_def sort_values_def reorder_def series_map_def
  get_dummies_def tournament_surfaces_def ordinal_mapping_def enriched_def

text \<open>
  Claim C2 asks for a hard failure on a tournament that the surface table does not know.
  The feature builder does not fail there: the lookup through \<open>Series.map\<close> yields the
  missing value, the \<open>except KeyError\<close> branch written for this case is not entered, and
  the row is emitted with no surface set. A table of one Wimbledon match gives a feature
  table without any surface column; next to an Australian Open match the Wimbledon row
  has \<open>False\<close> in the only surface column.
\<close>

theorem unknown_surface_not_raised:
  "build_features wimbledon_match =
     Inr \<lparr>f_index = [0],
          f_data = [(''result'', [CStr ''home'']), (''id_home'', [CInt 1]),
                    (''id_away'', [CInt 2]), (''round_ordinal'', [CInt 11])]\<rparr> \<and>
   build_features two_tournaments =
     Inr \<lparr>f_index = [1, 0],
          f_data = [(''result'', [CStr ''away'', CStr ''home'']),
                    (''id_home'', [CInt 1, CInt 1]), (''id_away'', [CInt 2, CInt 2]),
                    (''round_ordinal'', [CInt 10, CInt 11]),
                    (''surface_Hard'', [CBool True, CBool False])]\<rparr>"
proof -
  have up: "[0 ..< Suc (Suc 0)] = [0, Suc 0]" by (simp add: upt_rec)
  have le: "\<not> ''2023-07-16'' \<le> ''2023-01-29''"
    by (simp add: less_eq_char_def less_char_def)
  have one: "build_features wimbledon_match =
     Inr \<lparr>f_index = [0],
          f_data = [(''result'', [CStr ''home'']), (''id_home'', [CInt 1]),
                    (''id_away'', [CInt 2]), (''round_ordinal'', [CInt 11])]\<rparr>"
    by (simp add: feature_defs wimbledon_match_def label_defs)
  have two: "build_features two_tournaments =
     Inr \<lparr>f_index = [1, 0],
          f_data = [(''result'', [CStr ''away'', CStr ''home'']),
                    (''id_home'', [CInt 1, CInt 1]), (''id_away'', [CInt 2, CInt 2]),
                    (''round_ordinal'', [CInt 10, CInt 11]),
                    (''surface_Hard'', [CBool True, CBool False])]\<rparr>"
    by (simp add: feature_defs two_tournaments_def label_defs up le)
  from one two show ?thesis by simp
qed

section \<open>Properties of the synthetic birthdates\<close>

lemma epoch_seconds: "timestamp_seconds 1970 1 1 = 0"
  by (simp add: timestamp_seconds_def days_from_civil_def)

lemma last_day_seconds: "timestamp_seconds 2005 12 30 = 1135900800"
  by (simp add: timestamp_seconds_def days_from_civil_def)

lemma bound_seconds: "timestamp_seconds 2005 12 31 = 1135987200"
  by (simp add: timestamp_seconds_def days_from_civil_def)

lemma normalize_midnight: "normalize t mod 86400 = 0"
  by (simp add: normalize_def)

lemma normalize_le: "normalize t \<le> t"
  by (simp add: normalize_def)

lemma normalize_day: "normalize t = 86400 * (t div 86400)"
  by (simp add: normalize_def minus_mod_eq_mult_div)

lemma normalize_range:
  assumes "0 \<le> t" "t < 1135987200"
  shows "0 \<le> normalize t \<and> normalize t \<le> 1135900800"
proof -
  from assms have "0 \<le> t div 86400" "t div 86400 \<le> 13147" by simp_all
  then show ?thesis unfolding normalize_day by simp
qed

lemma int_div_eq_iff:
  "(0::int) < b \<Longrightarrow> a div b = q \<longleftrightarrow> q * b \<le> a \<and> a < (q + 1) * b"
proof
  assume b: "0 < b" and q: "a div b = q"
  from b have m: "0 \<le> a mod b" "a mod b < b" by simp_all
  have "a = b * (a div b) + a mod b" by simp
  with q have "a = q * b + a mod b" by (simp add: mult.commute)
  moreover have "(q + 1) * b = q * b + b" by (simp add: algebra_simps)
  ultimately show "q * b \<le> a \<and> a < (q + 1) * b" using m by linarith
next
  assume b: "0 < b" and h: "q * b \<le> a \<and> a < (q + 1) * b"
  then have "a = b * q + (a - q * b)" "0 \<le> a - q * b" "a - q * b < b"
    by (auto simp: algebra_simps)
  then show "a div b = q"
    using b by (metis int_div_pos_eq)
qed

lemma normalize_eq_iff:
  "normalize s = d * 86400 \<longleftrightarrow> d * 86400 \<le> s \<and> s < (d + 1) * 86400"
proof -
  have "normalize s = d * 86400 \<longleftrightarrow> s div 86400 = d"
    unfolding normalize_day by simp
  also have "\<dots> \<longleftrightarrow> d * 86400 \<le> s \<and> s < (d + 1) * 86400"
    by (rule int_div_eq_iff) simp
  finally show ?thesis .
qed

lemma day_preimage:
  "{s. normalize s = d * 86400} = {d * 86400 ..< (d + 1) * 86400}"
  unfolding normalize_eq_iff by (simp add: set_eq_iff)

lemma day_count: "card {s. normalize s = d * 86400} = 86400"
proof -
  have "(d + 1) * 86400 - d * 86400 = (86400::int)" by (simp add: algebra_simps)
  then show ?thesis unfolding day_preimage by simp
qed

lemma day_in_range:
  assumes "0 \<le> d" "d < 13148"
  shows "{s. timestamp_seconds 1970 1 1 \<le> s \<and> s < timestamp_seconds 2005 12 31 \<and>
             normalize s = d * 86400} = {s. normalize s = d * 86400}"
proof -
  have "0 \<le> s \<and> s < 1135987200" if "normalize s = d * 86400" for s
  proof -
    from that have "d * 86400 \<le> s" "s < (d + 1) * 86400"
      unfolding normalize_eq_iff by simp_all
    moreover have "(d + 1) * 86400 = d * 86400 + 86400" by (simp add: algebra_simps)
    ultimately show ?thesis using assms by linarith
  qed
  then show ?thesis unfolding epoch_seconds bound_seconds by blast
qed

lemma no_last_day:
  "\<not> (\<exists>s. timestamp_seconds 1970 1 1 \<le> s \<and> s < timestamp_seconds 2005 12 31 \<and>
          normalize s = timestamp_seconds 2005 12 31)"
proof
  assume "\<exists>s. timestamp_seconds 1970 1 1 \<le> s \<and> s < timestamp_seconds 2005 12 31 \<and>
          normalize s = timestamp_seconds 2005 12 31"
  then obtain s where "s < timestamp_seconds 2005 12 31" "normalize s = timestamp_seconds 2005 12 31"
    by blast
  with normalize_le [of s] show False by simp
qed

text \<open>
  Claim C9, amended. Every roster row gets one birth timestamp: the draw that numpy's
  \<open>randint\<close>, in the state of seed 42, makes from the seconds from 1970-01-01 inclusive
  to 2005-12-31 exclusive, set to midnight. With a generator that keeps numpy's contract
  the birthdate is therefore a day from 1970-01-01 to 2005-12-30, both inclusive, and
  never 2005-12-31. Every day of that window is the image of exactly 86400 seconds of the
  interval, so a draw that is uniform on the seconds is uniform on the days. Because the
  call seeds the generator first, the birthdates do not depend on the state the generator
  was in before: a second run, started in the state the first run left, gives the same
  birthdates for the same roster, and so does any roster with as many rows.
\<close>

theorem birthdates_in_window:
  assumes "randint_contract np"
  shows "map fst (fst (participant_features np state roster)) = roster \<and>
         map snd (fst (participant_features np state roster)) =
           map normalize
             (fst (np_randint np (np_seed np 42) (timestamp_seconds 1970 1 1)
                     (timestamp_seconds 2005 12 31) (length roster))) \<and>
         (\<forall>b \<in> set (map snd (fst (participant_features np state roster))).
            b mod 86400 = 0 \<and> timestamp_seconds 1970 1 1 \<le> b \<and>
            b \<le> timestamp_seconds 2005 12 30 \<and> b < timestamp_seconds 2005 12 31) \<and>
         fst (participant_features np state' roster) =
           fst (participant_features np state roster) \<and>
         fst (participant_features np (snd (participant_features np state roster)) roster) =
           fst (participant_features np state roster) \<and>
         (length roster' = length roster \<longrightarrow>
            map snd (fst (participant_features np state' roster')) =
            map snd (fst (participant_features np state roster))) \<and>
         (days_from_civil 1970 1 1 \<le> d \<and> d < days_from_civil 2005 12 31 \<longrightarrow>
            card {s. timestamp_seconds 1970 1 1 \<le> s \<and> s < timestamp_seconds 2005 12 31 \<and>
                     normalize s = d * 86400} = 86400)"
proof -
  let ?lo = "timestamp_seconds 1970 1 1" and ?hi = "timestamp_seconds 2005 12 31"
  let ?draws = "\<lambda>n. fst (np_randint np (np_seed np 42) ?lo ?hi n)"
  have lt: "?lo < ?hi" by (simp add: epoch_seconds bound_seconds)
  from assms lt have len: "length (?draws n) = n" for n
    unfolding randint_contract_def by blast
  from assms lt have rng: "?lo \<le> x \<and> x < ?hi" if "x \<in> set (?draws n)" for x n
    using that unfolding randint_contract_def by blast
  have a: "map fst (fst (participant_features np state roster)) = roster"
    by (simp add: participant_features_def Let_def case_prod_beta len)
  have snd_eq: "map snd (fst (participant_features np state roster)) =
      map normalize (?draws (length roster))"
    by (simp add: participant_features_def Let_def case_prod_beta len)
  have snd_eq': "map snd (fst (participant_features np state' roster')) =
      map normalize (?draws (length roster'))"
    by (simp add: participant_features_def Let_def case_prod_beta len)
  have c: "b mod 86400 = 0 \<and> ?lo \<le> b \<and> b \<le> timestamp_seconds 2005 12 30 \<and> b < ?hi"
    if "b \<in> set (map snd (fst (participant_features np state roster)))" for b
  proof -
    from that obtain x where x: "x \<in> set (?draws (length roster))" and bx: "b = normalize x"
      unfolding snd_eq by auto
    from rng [OF x] have "0 \<le> x" "x < 1135987200" by (simp_all add: epoch_seconds bound_seconds)
    from normalize_range [OF this] normalize_midnight [of x] bx show ?thesis
      by (simp add: epoch_seconds bound_seconds last_day_seconds)
  qed
  have d1: "fst (participant_features np state' roster) = fst (participant_features np state roster)"
    by (simp add: participant_features_def Let_def case_prod_beta)
  have d2: "fst (participant_features np (snd (participant_features np state roster)) roster) =
           fst (participant_features np state roster)"
    by (simp add: participant_features_def Let_def case_prod_beta)
  have d3: "map snd (fst (participant_features np state' roster')) =
            map snd (fst (participant_features np state roster))"
    if "length roster' = length roster"
    unfolding snd_eq snd_eq' using that by simp
  have e: "card {s. ?lo \<le> s \<and> s < ?hi \<and> normalize s = d * 86400} = 86400"
    if "days_from_civil 1970 1 1 \<le> d \<and> d < days_from_civil 2005 12 31"
  proof -
    from that have "0 \<le> d" "d < 13148" by (simp_all add: days_from_civil_def)
    from day_in_range [OF this] day_count [of d] show ?thesis by simp
  qed
  show ?thesis
  proof (intro conjI ballI impI)
    show "map fst (fst (participant_features np state roster)) = roster" by (rule a)
    show "map snd (fst (participant_features np state roster)) =
        map normalize (?draws (length roster))" by (rule snd_eq)
    show "fst (participant_features np state' roster) =
        fst (participant_features np state roster)" by (rule d1)
    show "fst (participant_features np (snd (participant_features np state roster)) roster) =
        fst (participant_features np state roster)" by (rule d2)
    show "map snd (fst (participant_features np state' roster')) =
            map snd (fst (participant_features np state roster))"
      if "length roster' = length roster" using that by (rule d3)
    show "card {s. ?lo \<le> s \<and> s < ?hi \<and> normalize s = d * 86400} = 86400"
      if "days_from_civil 1970 1 1 \<le> d \<and> d < days_from_civil 2005 12 31"
      using that by (rule e)
  qed (use c in blast)+
qed

lemma top_random_contract: "randint_contract top_random"
  by (auto simp: randint_contract_def top_random_def)

lemma spread_random_contract: "randint_contract spread_random"
proof -
  have "low \<le> low + k mod (high - low) \<and> low + k mod (high - low) < high"
    if "low < high" for low high k :: int
  proof -
    from that have "0 < high - low" by simp
    then have "0 \<le> k mod (high - low)" "k mod (high - low) < high - low"
      by simp_all
    then show ?thesis by linarith
  qed
  then show ?thesis
    by (auto simp: randint_contract_def spread_random_def)
qed

text \<open>
  Claim C9 as stated fails at its upper bound: the largest timestamp \<open>randint\<close> may
  return is one second before midnight of 2005-12-31, its day is 2005-12-30, and no
  timestamp of the interval has 2005-12-31 as its day.
\<close>

theorem last_day_never_drawn_counterexample:
  "randint_contract top_random \<and>
   fst (participant_features top_random 0 [''A'']) = [(''A'', timestamp_seconds 2005 12 30)] \<and>
   timestamp_seconds 2005 12 30 < timestamp_seconds 2005 12 31 \<and>
   \<not> (\<exists>s. timestamp_seconds 1970 1 1 \<le> s \<and> s < timestamp_seconds 2005 12 31 \<and>
          normalize s = timestamp_seconds 2005 12 31)"
proof -
  have "fst (participant_features top_random 0 [''A'']) = [(''A'', timestamp_seconds 2005 12 30)]"
    by (simp add: participant_features_def top_random_def normalize_def bound_seconds
        last_day_seconds)
  moreover have "timestamp_seconds 2005 12 30 < timestamp_seconds 2005 12 31"
    by (simp add: bound_seconds last_day_seconds)
  ultimately show ?thesis using top_random_contract no_last_day by blast
qed

theorem birthdates_in_window_witness:
  "randint_contract spread_random \<and>
   map fst (fst (participant_features spread_random 7 [''A'', ''B'', ''C''])) =
     [''A'', ''B'', ''C''] \<and>
   map snd (fst (participant_features spread_random 7 [''A'', ''B'', ''C''])) =
     [896140800, 160185600, 560131200] \<and>
   list_all (\<lambda>b. b mod 86400 = 0 \<and> timestamp_seconds 1970 1 1 \<le> b \<and>
                  b \<le> timestamp_seconds 2005 12 30)
     (map snd (fst (participant_features spread_random 7 [''A'', ''B'', ''C'']))) \<and>
   snd (participant_features spread_random 7 [''A'', ''B'', ''C'']) = 45 \<and>
   fst (participant_features spread_random 45 [''A'', ''B'', ''C'']) =
     fst (participant_features spread_random 7 [''A'', ''B'', ''C'']) \<and>
   map snd (fst (participant_features spread_random 0 [''X'', ''Y'', ''Z''])) =
     map snd (fst (participant_features spread_random 7 [''A'', ''B'', ''C''])) \<and>
   card {s. timestamp_seconds 1970 1 1 \<le> s \<and> s < timestamp_seconds 2005 12 31 \<and>
            normalize s = 13147 * 86400} = 86400"
proof -
  note inst = birthdates_in_window [OF spread_random_contract,
      of 7 "[''A'', ''B'', ''C'']" _ "[''X'', ''Y'', ''Z'']" 13147]
  have up: "[0 ..< 3] = [0, 1, 2::nat]" by (simp add: upt_rec)
  have vals: "map snd (fst (participant_features spread_random 7 [''A'', ''B'', ''C''])) =
     [896140800, 160185600, 560131200]"
    by (simp add: participant_features_def spread_random_def normalize_def bound_seconds
        epoch_seconds up)
  have left: "snd (participant_features spread_random 7 [''A'', ''B'', ''C'']) = 45"
    by (simp add: participant_features_def spread_random_def)
  from inst [of 0] have fsts:
    "map fst (fst (participant_features spread_random 7 [''A'', ''B'', ''C''])) =
      [''A'', ''B'', ''C'']"
    by blast
  from inst [of 0] have "\<forall>b \<in> set (map snd (fst (participant_features spread_random 7
        [''A'', ''B'', ''C'']))).
      b mod 86400 = 0 \<and> timestamp_seconds 1970 1 1 \<le> b \<and>
      b \<le> timestamp_seconds 2005 12 30 \<and> b < timestamp_seconds 2005 12 31"
    by blast
  then have win: "list_all (\<lambda>b. b mod 86400 = 0 \<and> timestamp_seconds 1970 1 1 \<le> b \<and>
                  b \<le> timestamp_seconds 2005 12 30)
     (map snd (fst (participant_features spread_random 7 [''A'', ''B'', ''C''])))"
    unfolding list_all_iff by blast
  from inst [of 45] have again:
    "fst (participant_features spread_random 45 [''A'', ''B'', ''C'']) =
     fst (participant_features spread_random 7 [''A'', ''B'', ''C''])"
    by blast
  have "length [''X'', ''Y'', ''Z''] = length [''A'', ''B'', ''C'']" by simp
  with inst [of 0] have same:
    "map snd (fst (participant_features spread_random 0 [''X'', ''Y'', ''Z''])) =
     map snd (fst (participant_features spread_random 7 [''A'', ''B'', ''C'']))"
    by blast
  have "days_from_civil 1970 1 1 \<le> 13147 \<and> 13147 < days_from_civil 2005 12 31"
    by (simp add: days_from_civil_def)
  with inst [of 0] have cnt:
    "card {s. timestamp_seconds 1970 1 1 \<le> s \<and> s < timestamp_seconds 2005 12 31 \<and>
            normalize s = 13147 * 86400} = 86400"
    by blast
  from spread_random_contract fsts vals win left again same cnt show ?thesis by blast
qed


end
